theory Spec2Isabelle
  imports Complex_Main
begin

section \<open>Floating-point values\<close>

text \<open>
  The program computes with float64 values of numpy and pandas. They are modelled as the
  real numbers extended by the two infinities and NaN. Rounding and overflow are not
  modelled: a finite result is the exact real number. Zero carries no sign; a zero divisor
  acts as +0.0, which is the sign of every zero divisor this program produces (a standard
  deviation, a maximum of a drawdown column, a price).
\<close>

datatype fl = NaN | NInf | Fin real | PInf

fun isnan :: "fl \<Rightarrow> bool" where
  "isnan NaN = True"
| "isnan _ = False"

fun isfinite :: "fl \<Rightarrow> bool" where
  "isfinite (Fin _) = True"
| "isfinite _ = False"

fun the_fin :: "fl \<Rightarrow> real" where
  "the_fin (Fin x) = x"
| "the_fin _ = 0"

fun fneg :: "fl \<Rightarrow> fl" where
  "fneg NaN = NaN"
| "fneg NInf = PInf"
| "fneg (Fin x) = Fin (- x)"
| "fneg PInf = NInf"

fun fadd :: "fl \<Rightarrow> fl \<Rightarrow> fl" where
  "fadd NaN _ = NaN"
| "fadd _ NaN = NaN"
| "fadd PInf NInf = NaN"
| "fadd NInf PInf = NaN"
| "fadd PInf _ = PInf"
| "fadd _ PInf = PInf"
| "fadd NInf _ = NInf"
| "fadd _ NInf = NInf"
| "fadd (Fin a) (Fin b) = Fin (a + b)"

definition fsub :: "fl \<Rightarrow> fl \<Rightarrow> fl" where
  "fsub a b = fadd a (fneg b)"

text \<open>An infinity of the sign of a real factor; NaN for the factor zero.\<close>

definition signed_inf :: "real \<Rightarrow> fl" where
  "signed_inf s = (if 0 < s then PInf else if s < 0 then NInf else NaN)"

fun fmul :: "fl \<Rightarrow> fl \<Rightarrow> fl" where
  "fmul NaN _ = NaN"
| "fmul _ NaN = NaN"
| "fmul (Fin a) (Fin b) = Fin (a * b)"
| "fmul (Fin a) PInf = signed_inf a"
| "fmul (Fin a) NInf = signed_inf (- a)"
| "fmul PInf (Fin b) = signed_inf b"
| "fmul NInf (Fin b) = signed_inf (- b)"
| "fmul PInf PInf = PInf"
| "fmul NInf NInf = PInf"
| "fmul PInf NInf = NInf"
| "fmul NInf PInf = NInf"

fun fdiv :: "fl \<Rightarrow> fl \<Rightarrow> fl" where
  "fdiv NaN _ = NaN"
| "fdiv _ NaN = NaN"
| "fdiv (Fin a) (Fin b) = (if b = 0 then signed_inf a else Fin (a / b))"
| "fdiv (Fin a) PInf = Fin 0"
| "fdiv (Fin a) NInf = Fin 0"
| "fdiv PInf (Fin b) = (if 0 \<le> b then PInf else NInf)"
| "fdiv NInf (Fin b) = (if 0 \<le> b then NInf else PInf)"
| "fdiv PInf PInf = NaN"
| "fdiv PInf NInf = NaN"
| "fdiv NInf PInf = NaN"
| "fdiv NInf NInf = NaN"

text \<open>The comparisons \<open>a > b\<close> and \<open>a <= b\<close>; both are false when an operand is NaN.\<close>

fun fgt :: "fl \<Rightarrow> fl \<Rightarrow> bool" where
  "fgt NaN _ = False"
| "fgt _ NaN = False"
| "fgt NInf _ = False"
| "fgt _ PInf = False"
| "fgt PInf _ = True"
| "fgt _ NInf = True"
| "fgt (Fin a) (Fin b) = (b < a)"

fun fle :: "fl \<Rightarrow> fl \<Rightarrow> bool" where
  "fle NaN _ = False"
| "fle _ NaN = False"
| "fle NInf _ = True"
| "fle _ PInf = True"
| "fle PInf _ = False"
| "fle _ NInf = False"
| "fle (Fin a) (Fin b) = (a \<le> b)"

definition fmax :: "fl \<Rightarrow> fl \<Rightarrow> fl" where
  "fmax a b = (if fgt b a then b else a)"

fun fsqrt :: "fl \<Rightarrow> fl" where
  "fsqrt NaN = NaN"
| "fsqrt NInf = NaN"
| "fsqrt (Fin x) = (if x < 0 then NaN else Fin (sqrt x))"
| "fsqrt PInf = PInf"

definition is_integer :: "real \<Rightarrow> bool" where
  "is_integer y = (of_int \<lfloor>y\<rfloor> = y)"

text \<open>\<open>x ** y\<close> for a float64 base and a finite exponent, as C's \<open>pow\<close> defines it.\<close>

fun fpow :: "fl \<Rightarrow> real \<Rightarrow> fl" where
  "fpow NaN y = (if y = 0 then Fin 1 else NaN)"
| "fpow (Fin x) y =
     (if y = 0 then Fin 1
      else if 0 < x then Fin (x powr y)
      else if x = 0 then (if 0 < y then Fin 0 else PInf)
      else if is_integer y then Fin (x powi \<lfloor>y\<rfloor>)
      else NaN)"
| "fpow PInf y = (if y = 0 then Fin 1 else if 0 < y then PInf else Fin 0)"
| "fpow NInf y =
     (if y = 0 then Fin 1
      else if 0 < y then (if is_integer y \<and> odd \<lfloor>y\<rfloor> then NInf else PInf)
      else Fin 0)"

section \<open>Series operations of pandas\<close>

definition fsum :: "fl list \<Rightarrow> fl" where
  "fsum xs = foldr fadd xs (Fin 0)"

definition dropna :: "fl list \<Rightarrow> fl list" where
  "dropna xs = filter (\<lambda>x. \<not> isnan x) xs"

text \<open>\<open>Series.shift(1)\<close>: every value moves one row down, the first row becomes NaN.\<close>

definition shift1 :: "fl list \<Rightarrow> fl list" where
  "shift1 xs = (if xs = [] then [] else NaN # butlast xs)"

text \<open>\<open>Series.ffill()\<close>: a NaN takes the last value seen before it.\<close>

fun ffill_from :: "fl \<Rightarrow> fl list \<Rightarrow> fl list" where
  "ffill_from prev [] = []"
| "ffill_from prev (x # xs) =
     (if isnan x then prev # ffill_from prev xs else x # ffill_from x xs)"

definition ffill :: "fl list \<Rightarrow> fl list" where
  "ffill xs = ffill_from NaN xs"

text \<open>
  \<open>Series.pct_change()\<close> with the defaults of pandas 1 and 2: the series is forward
  filled, then divided by its own shift, and 1 is subtracted.
\<close>

definition pct_change :: "fl list \<Rightarrow> fl list" where
  "pct_change xs =
     (let data = ffill xs
      in map2 (\<lambda>a b. fsub (fdiv a b) (Fin 1)) data (shift1 data))"

text \<open>
  \<open>Series.cumprod()\<close> and \<open>Series.cummax()\<close> skip NaN: a NaN row stays NaN in the
  result and does not change the running value.
\<close>

fun cumprod_from :: "fl \<Rightarrow> fl list \<Rightarrow> fl list" where
  "cumprod_from acc [] = []"
| "cumprod_from acc (x # xs) =
     (if isnan x then NaN # cumprod_from acc xs
      else fmul acc x # cumprod_from (fmul acc x) xs)"

definition cumprod :: "fl list \<Rightarrow> fl list" where
  "cumprod xs = cumprod_from (Fin 1) xs"

fun cummax_from :: "fl \<Rightarrow> fl list \<Rightarrow> fl list" where
  "cummax_from acc [] = []"
| "cummax_from acc (x # xs) =
     (if isnan x then NaN # cummax_from acc xs
      else fmax acc x # cummax_from (fmax acc x) xs)"

definition cummax :: "fl list \<Rightarrow> fl list" where
  "cummax xs = cummax_from NInf xs"

text \<open>\<open>Series.max()\<close>: the largest value that is not NaN; NaN when there is none.\<close>

definition smax :: "fl list \<Rightarrow> fl" where
  "smax xs = (case dropna xs of [] \<Rightarrow> NaN | v # vs \<Rightarrow> foldl fmax v vs)"

text \<open>
  \<open>Series.std()\<close>: the sample standard deviation (one degree of freedom removed) of the
  values that are not NaN; NaN when fewer than two remain.
\<close>

definition std :: "fl list \<Rightarrow> fl" where
  "std xs =
     (let vals = dropna xs; n = length vals
      in if n \<le> 1 then NaN
         else let avg = fdiv (fsum vals) (Fin (real n));
                  sqr = map (\<lambda>v. fmul (fsub avg v) (fsub avg v)) vals
              in fsqrt (fdiv (fsum sqr) (Fin (real (n - 1)))))"

datatype error = KeyError | ValueError | IndexError | UnboundLocalError

text \<open>\<open>Series.iloc[-1]\<close>\<close>

definition iloc_last :: "fl list \<Rightarrow> error + fl" where
  "iloc_last xs = (if xs = [] then Inl IndexError else Inr (last xs))"

text \<open>
  The window functions of pandas first replace infinities by NaN.
\<close>

definition inf_to_nan :: "fl list \<Rightarrow> fl list" where
  "inf_to_nan xs = map (\<lambda>x. if isfinite x then x else NaN) xs"

text \<open>
  \<open>Series.rolling(window).mean()\<close>: the mean of the last \<open>window\<close> values when the row
  has that many before it and none of them is missing, NaN otherwise. A negative window
  is refused.
\<close>

definition rolling_at :: "nat \<Rightarrow> fl list \<Rightarrow> nat \<Rightarrow> fl" where
  "rolling_at w xs t =
     (let win = drop (Suc t - w) (take (Suc t) xs)
      in if 1 \<le> w \<and> w \<le> Suc t \<and> list_all isfinite win
         then Fin (sum_list (map the_fin win) / real w)
         else NaN)"

definition rolling_values :: "int \<Rightarrow> fl list \<Rightarrow> fl list" where
  "rolling_values window xs = map (rolling_at (nat window) (inf_to_nan xs)) [0..<length xs]"

definition rolling_mean :: "int \<Rightarrow> fl list \<Rightarrow> error + fl list" where
  "rolling_mean window xs =
     (if window < 0 then Inl ValueError else Inr (rolling_values window xs))"

text \<open>
  \<open>Series.ewm(span=window).mean()\<close> with the defaults \<open>adjust=True\<close>,
  \<open>ignore_na=False\<close>, \<open>min_periods=0\<close>: the loop of pandas, with its running weighted
  mean \<open>weighted\<close> and the weight \<open>old_wt\<close> of the past. A span below 1 is refused.
\<close>

fun ewm_loop :: "real \<Rightarrow> fl \<Rightarrow> real \<Rightarrow> fl list \<Rightarrow> fl list" where
  "ewm_loop old_wt_factor weighted old_wt [] = []"
| "ewm_loop old_wt_factor weighted old_wt (cur # rest) =
     (if \<not> isnan weighted then
        (let old_wt1 = old_wt * old_wt_factor
         in if \<not> isnan cur then
              (let weighted1 =
                     (if weighted \<noteq> cur
                      then Fin ((old_wt1 * the_fin weighted + 1 * the_fin cur) / (old_wt1 + 1))
                      else weighted)
               in weighted1 # ewm_loop old_wt_factor weighted1 (old_wt1 + 1) rest)
            else weighted # ewm_loop old_wt_factor weighted old_wt1 rest)
      else if \<not> isnan cur then cur # ewm_loop old_wt_factor cur old_wt rest
      else weighted # ewm_loop old_wt_factor weighted old_wt rest)"

definition ewm_values :: "int \<Rightarrow> fl list \<Rightarrow> fl list" where
  "ewm_values span_arg xs =
     (let com = (real_of_int span_arg - 1) / 2;
          alpha = 1 / (1 + com);
          old_wt_factor = 1 - alpha
      in case inf_to_nan xs of
           [] \<Rightarrow> []
         | x # rest \<Rightarrow> x # ewm_loop old_wt_factor x 1 rest)"

definition ewm_mean :: "int \<Rightarrow> fl list \<Rightarrow> error + fl list" where
  "ewm_mean span_arg xs =
     (if span_arg < 1 then Inl ValueError else Inr (ewm_values span_arg xs))"

section \<open>Data frames and the interpreter state\<close>

text \<open>
  A data frame has a number of rows and float64 columns found by name. The state of the
  interpreter is the module's global variable \<open>position\<close> and the data frames that
  exist, found by reference; \<open>next_ref\<close> is the first reference not yet in use.
\<close>

record frame =
  nrows :: nat
  cols :: "string \<Rightarrow> fl list option"

record world =
  position :: int
  next_ref :: nat
  frames :: "nat \<Rightarrow> frame"

type_synonym 'a py = "world \<Rightarrow> (error + 'a) \<times> world"

definition ret :: "'a \<Rightarrow> 'a py" where
  "ret x = (\<lambda>w. (Inr x, w))"

definition raise :: "error \<Rightarrow> 'a py" where
  "raise e = (\<lambda>w. (Inl e, w))"

definition bind :: "'a py \<Rightarrow> ('a \<Rightarrow> 'b py) \<Rightarrow> 'b py" where
  "bind m f = (\<lambda>w. case m w of (Inl e, w') \<Rightarrow> (Inl e, w') | (Inr x, w') \<Rightarrow> f x w')"

definition lift :: "error + 'a \<Rightarrow> 'a py" where
  "lift r = (\<lambda>w. (r, w))"

text \<open>\<open>df[c]\<close>, \<open>df[c] = values\<close>, \<open>len(df)\<close> and \<open>df.copy()\<close> on a frame reference.\<close>

definition getitem :: "nat \<Rightarrow> string \<Rightarrow> fl list py" where
  "getitem df c =
     (\<lambda>w. case cols (frames w df) c of None \<Rightarrow> (Inl KeyError, w) | Some v \<Rightarrow> (Inr v, w))"

definition setitem :: "nat \<Rightarrow> string \<Rightarrow> fl list \<Rightarrow> unit py" where
  "setitem df c v =
     (\<lambda>w. (Inr (),
        w\<lparr>frames := (frames w)(df := (frames w df)\<lparr>cols := (cols (frames w df))(c \<mapsto> v)\<rparr>)\<rparr>))"

definition len :: "nat \<Rightarrow> nat py" where
  "len df = (\<lambda>w. (Inr (nrows (frames w df)), w))"

definition copy :: "nat \<Rightarrow> nat py" where
  "copy df =
     (\<lambda>w. (Inr (next_ref w),
        w\<lparr>next_ref := Suc (next_ref w), frames := (frames w)(next_ref w := frames w df)\<rparr>))"

definition get_position :: "int py" where
  "get_position = (\<lambda>w. (Inr (position w), w))"

definition set_position :: "int \<Rightarrow> unit py" where
  "set_position p = (\<lambda>w. (Inr (), w\<lparr>position := p\<rparr>))"

text \<open>A row of a frame, as \<open>DataFrame.apply(..., axis=1)\<close> passes it: its values by column name.\<close>

type_synonym row = "string \<Rightarrow> fl option"

definition row_at :: "frame \<Rightarrow> nat \<Rightarrow> row" where
  "row_at f i =
     (\<lambda>c. case cols f c of
            None \<Rightarrow> None
          | Some v \<Rightarrow> (if i < length v then Some (v ! i) else None))"

definition row_get :: "row \<Rightarrow> string \<Rightarrow> fl py" where
  "row_get r c = (case r c of None \<Rightarrow> raise KeyError | Some v \<Rightarrow> ret v)"

fun mapM :: "('a \<Rightarrow> 'b py) \<Rightarrow> 'a list \<Rightarrow> 'b list py" where
  "mapM f [] = ret []"
| "mapM f (x # xs) = bind (f x) (\<lambda>y. bind (mapM f xs) (\<lambda>ys. ret (y # ys)))"

text \<open>\<open>df.apply(f, axis=1)\<close>: \<open>f\<close> is called on the rows in order, and its results are collected.\<close>

definition apply_rows :: "nat \<Rightarrow> (row \<Rightarrow> int py) \<Rightarrow> int list py" where
  "apply_rows df f =
     (\<lambda>w. mapM f (map (row_at (frames w df)) [0..<nrows (frames w df)]) w)"

text \<open>The shift of a series of integers is a float64 series.\<close>

definition shift1_int :: "int list \<Rightarrow> fl list" where
  "shift1_int xs = shift1 (map (\<lambda>p. Fin (real_of_int p)) xs)"

text \<open>\<open>str\<close> of an integer, for the column names.\<close>

fun str_nat :: "nat \<Rightarrow> string" where
  "str_nat n =
     (if n < 10 then [char_of (48 + n)]
      else str_nat (n div 10) @ [char_of (48 + n mod 10)])"

definition str_int :: "int \<Rightarrow> string" where
  "str_int i = (if i < 0 then CHR ''-'' # str_nat (nat (- i)) else str_nat (nat i))"

section \<open>The program: backtest\_functions.py\<close>

definition update_position :: "row \<Rightarrow> string \<Rightarrow> string \<Rightarrow> string \<Rightarrow> int py" where
  "update_position row price_col SMA_col EMA_col =
     bind (row_get row price_col) (\<lambda>close.
     bind (row_get row SMA_col) (\<lambda>sma.
     bind (row_get row EMA_col) (\<lambda>ema.
     bind (bind get_position (\<lambda>p.
             if p = 0 then
               (if fgt close sma \<and> fgt close ema then set_position 1 else ret ())
             else if p = 1 then
               (if fle close sma \<or> fle close ema then set_position 0 else ret ())
             else ret ())) (\<lambda>_.
     get_position))))"

definition trend_following :: "nat \<Rightarrow> string \<Rightarrow> string \<Rightarrow> int \<Rightarrow> nat py" where
  "trend_following df0 price_col strategy_col window =
     bind (set_position 0) (\<lambda>_.
     bind (copy df0) (\<lambda>df.
     let SMA_col = ''SMA_'' @ str_int window;
         EMA_col = ''EMA_'' @ str_int window
     in
     bind (getitem df price_col) (\<lambda>p1.
     bind (lift (rolling_mean window p1)) (\<lambda>sma.
     bind (setitem df SMA_col sma) (\<lambda>_.
     bind (getitem df price_col) (\<lambda>p2.
     bind (lift (ewm_mean window p2)) (\<lambda>ema.
     bind (setitem df EMA_col ema) (\<lambda>_.
     bind (apply_rows df (\<lambda>row. update_position row price_col SMA_col EMA_col)) (\<lambda>sig.
     bind (setitem df ''position'' (shift1_int sig)) (\<lambda>_.
     bind (getitem df price_col) (\<lambda>p3.
     bind (getitem df ''position'') (\<lambda>pos.
     bind (setitem df strategy_col (map2 fmul (pct_change p3) pos)) (\<lambda>_.
     ret df)))))))))))))"

definition max_drawdown :: "nat \<Rightarrow> string \<Rightarrow> fl py" where
  "max_drawdown df strategy_col =
     (let cum_col = ''cumulative_return_'' @ strategy_col
      in
      bind (getitem df strategy_col) (\<lambda>s.
      bind (setitem df cum_col
              (map (\<lambda>x. fsub x (Fin 1)) (cumprod (map (fadd (Fin 1)) s)))) (\<lambda>_.
      bind (getitem df cum_col) (\<lambda>c1.
      bind (getitem df cum_col) (\<lambda>c2.
      bind (setitem df ''drawdown''
              (map (fsub (Fin 1))
                 (map2 fdiv (map (fadd (Fin 1)) c1) (map (fadd (Fin 1)) (cummax c2))))) (\<lambda>_.
      bind (getitem df ''drawdown'') (\<lambda>dd.
      ret (smax dd))))))))"

definition periods_per_year :: "string \<Rightarrow> real option" where
  "periods_per_year frequency =
     (if frequency = ''daily'' then Some 365
      else if frequency = ''hourly'' then Some (365 * 24)
      else if frequency = ''5-minute'' then Some (60 / 5 * 365 * 24)
      else None)"

definition return_metrics ::
  "nat \<Rightarrow> string \<Rightarrow> string \<Rightarrow> string \<Rightarrow> (fl \<times> fl \<times> fl \<times> fl \<times> fl) py" where
  "return_metrics df price_col strategy_col frequency =
     (let cum_return_col = ''cumulative_'' @ strategy_col
      in
      bind (getitem df strategy_col) (\<lambda>s.
      bind (setitem df cum_return_col
              (map (\<lambda>x. fsub x (Fin 1)) (cumprod (map (fadd (Fin 1)) s)))) (\<lambda>_.
      bind (len df) (\<lambda>T.
      bind (case periods_per_year frequency of
              None \<Rightarrow> raise UnboundLocalError | Some h \<Rightarrow> ret h) (\<lambda>h.
      let n_years = real T / h
      in
      bind (getitem df cum_return_col) (\<lambda>c1.
      bind (lift (iloc_last c1)) (\<lambda>total_performance.
      let v_initial = Fin 100
      in
      bind (getitem df cum_return_col) (\<lambda>c2.
      bind (lift (iloc_last c2)) (\<lambda>final_cum.
      let v_final = fmul (Fin 100) (fadd (Fin 1) final_cum);
          annualized_return = fsub (fpow (fdiv v_final v_initial) (1 / n_years)) (Fin 1)
      in
      bind (getitem df price_col) (\<lambda>prices.
      let annualized_vol = fmul (std prices) (Fin (sqrt h));
          sharpe_ratio = fdiv annualized_return annualized_vol
      in
      bind (max_drawdown df strategy_col) (\<lambda>max_dd.
      ret (total_performance, annualized_return, annualized_vol, sharpe_ratio,
           max_dd))))))))))))"

text \<open>Python's \<open>range(start, stop, step)\<close> for a positive step.\<close>

definition py_range :: "int \<Rightarrow> int \<Rightarrow> int \<Rightarrow> int list" where
  "py_range start stop step =
     map (\<lambda>k. start + step * int k) [0..<nat ((stop - start + step - 1) div step)]"

definition default_window_range :: "int list" where
  "default_window_range = py_range 10 201 10"

text \<open>
  The local variables of \<open>grid_search\<close> that its loop updates, and one pass of the loop.
\<close>

record search =
  optimal_window :: "int option"
  max_objective_value :: fl
  results :: "(int \<times> fl) list"

definition grid_search_step ::
  "nat \<Rightarrow> string \<Rightarrow> string \<Rightarrow> search \<Rightarrow> int \<Rightarrow> search py" where
  "grid_search_step data price_col strategy_col st window_size =
     bind (trend_following data price_col strategy_col window_size) (\<lambda>df.
     bind (return_metrics df price_col strategy_col ''daily'')
       (\<lambda>(_, _, _, sharpe_ratio, max_drawdown).
     let objective_value = fdiv sharpe_ratio max_drawdown;
         st1 = st\<lparr>results := results st @ [(window_size, objective_value)]\<rparr>
     in
     if fgt objective_value (max_objective_value st1)
     then ret (st1\<lparr>max_objective_value := objective_value,
                   optimal_window := Some window_size\<rparr>)
     else ret st1))"

fun grid_search_loop ::
  "nat \<Rightarrow> string \<Rightarrow> string \<Rightarrow> search \<Rightarrow> int list \<Rightarrow> search py" where
  "grid_search_loop data price_col strategy_col st [] = ret st"
| "grid_search_loop data price_col strategy_col st (window_size # rest) =
     bind (grid_search_step data price_col strategy_col st window_size) (\<lambda>st1.
     grid_search_loop data price_col strategy_col st1 rest)"

definition grid_search_locals :: "nat \<Rightarrow> string \<Rightarrow> string \<Rightarrow> int list \<Rightarrow> search py" where
  "grid_search_locals data price_col strategy_col window_range =
     grid_search_loop data price_col strategy_col
       \<lparr>optimal_window = None, max_objective_value = NInf, results = []\<rparr> window_range"

definition grid_search :: "nat \<Rightarrow> string \<Rightarrow> string \<Rightarrow> int list \<Rightarrow> int option py" where
  "grid_search data price_col strategy_col window_range =
     bind (grid_search_locals data price_col strategy_col window_range) (\<lambda>st.
     ret (optimal_window st))"

section \<open>What the program computes, as functions of the price series\<close>

text \<open>
  The series the program builds on the way, written as functions of their inputs. The
  lemmas below show that the program computes them; the theorems are stated with them.
\<close>

definition next_position :: "int \<Rightarrow> fl \<Rightarrow> fl \<Rightarrow> fl \<Rightarrow> int" where
  "next_position p close sma ema =
     (if p = 0 then (if fgt close sma \<and> fgt close ema then 1 else 0)
      else if p = 1 then (if fle close sma \<or> fle close ema then 0 else 1)
      else p)"

fun scan_position :: "int \<Rightarrow> (fl \<times> fl \<times> fl) list \<Rightarrow> int list" where
  "scan_position p [] = []"
| "scan_position p ((close, sma, ema) # rows) =
     next_position p close sma ema # scan_position (next_position p close sma ema) rows"

definition raw_signals :: "int \<Rightarrow> fl list \<Rightarrow> int list" where
  "raw_signals window prices =
     scan_position 0
       (zip prices (zip (rolling_values window prices) (ewm_values window prices)))"

definition strategy_series :: "int \<Rightarrow> fl list \<Rightarrow> fl list" where
  "strategy_series window prices =
     map2 fmul (pct_change prices) (shift1_int (raw_signals window prices))"

definition cumulative :: "fl list \<Rightarrow> fl list" where
  "cumulative s = map (\<lambda>x. fsub x (Fin 1)) (cumprod (map (fadd (Fin 1)) s))"

definition drawdown_series :: "fl list \<Rightarrow> fl list" where
  "drawdown_series s =
     map (fsub (Fin 1))
       (map2 fdiv (map (fadd (Fin 1)) (cumulative s))
          (map (fadd (Fin 1)) (cummax (cumulative s))))"

text \<open>
  The frames the functions leave behind, and the metrics \<open>return_metrics\<close> returns.
\<close>

definition trend_frame :: "frame \<Rightarrow> string \<Rightarrow> int \<Rightarrow> fl list \<Rightarrow> frame" where
  "trend_frame f strategy_col window prices =
     f\<lparr>cols := (cols f)
          (''SMA_'' @ str_int window \<mapsto> rolling_values window prices,
           ''EMA_'' @ str_int window \<mapsto> ewm_values window prices,
           ''position'' \<mapsto> shift1_int (raw_signals window prices),
           strategy_col \<mapsto> strategy_series window prices)\<rparr>"

definition drawdown_frame :: "frame \<Rightarrow> string \<Rightarrow> fl list \<Rightarrow> frame" where
  "drawdown_frame f strategy_col s =
     f\<lparr>cols := (cols f)
          (''cumulative_return_'' @ strategy_col \<mapsto> cumulative s,
           ''drawdown'' \<mapsto> drawdown_series s)\<rparr>"

definition metrics_frame :: "frame \<Rightarrow> string \<Rightarrow> fl list \<Rightarrow> frame" where
  "metrics_frame f strategy_col s =
     drawdown_frame (f\<lparr>cols := (cols f)(''cumulative_'' @ strategy_col \<mapsto> cumulative s)\<rparr>)
       strategy_col s"

definition annualized_return_of :: "fl list \<Rightarrow> nat \<Rightarrow> real \<Rightarrow> fl" where
  "annualized_return_of s T h =
     fsub (fpow (fdiv (fmul (Fin 100) (fadd (Fin 1) (last (cumulative s)))) (Fin 100))
             (1 / (real T / h)))
       (Fin 1)"

definition annualized_vol_of :: "fl list \<Rightarrow> real \<Rightarrow> fl" where
  "annualized_vol_of prices h = fmul (std prices) (Fin (sqrt h))"

definition sharpe_of :: "fl list \<Rightarrow> fl list \<Rightarrow> nat \<Rightarrow> real \<Rightarrow> fl" where
  "sharpe_of s prices T h = fdiv (annualized_return_of s T h) (annualized_vol_of prices h)"



text \<open>
  The grid search: the objective of a candidate window, the update of the local variables
  by one candidate, the whole loop as a fold, the local variables at the start, and the
  state of the interpreter after the backtest of one candidate.
\<close>

definition objective_of :: "int \<Rightarrow> fl list \<Rightarrow> fl" where
  "objective_of window prices =
     (let s = strategy_series window prices
      in fdiv (sharpe_of s prices (length prices) 365) (smax (drawdown_series s)))"

definition record_candidate :: "search \<Rightarrow> int \<Rightarrow> fl \<Rightarrow> search" where
  "record_candidate st window_size objective_value =
     (let st1 = st\<lparr>results := results st @ [(window_size, objective_value)]\<rparr>
      in if fgt objective_value (max_objective_value st1)
         then st1\<lparr>max_objective_value := objective_value,
                  optimal_window := Some window_size\<rparr>
         else st1)"

definition search_over :: "fl list \<Rightarrow> search \<Rightarrow> int list \<Rightarrow> search" where
  "search_over prices st ws =
     foldl (\<lambda>st window_size. record_candidate st window_size (objective_of window_size prices))
       st ws"

definition initial_search :: search where
  "initial_search = \<lparr>optimal_window = None, max_objective_value = NInf, results = []\<rparr>"

definition candidate_world :: "world \<Rightarrow> nat \<Rightarrow> string \<Rightarrow> int \<Rightarrow> fl list \<Rightarrow> world" where
  "candidate_world w data strategy_col window prices =
     w\<lparr>position := last (0 # raw_signals window prices),
       next_ref := Suc (next_ref w),
       frames := (frames w)
         (next_ref w := metrics_frame
            (trend_frame (frames w data) strategy_col window prices)
            strategy_col (strategy_series window prices))\<rparr>"

text \<open>
  The column names the functions write are built from the window and the strategy column.
  \<open>names_apart\<close> says that the price column is none of them, so that it still holds the
  prices when it is read again, and that every window is at least 1, as the window
  functions of pandas require.
\<close>

definition names_apart :: "string \<Rightarrow> string \<Rightarrow> int list \<Rightarrow> bool" where
  "names_apart price_col strategy_col ws \<longleftrightarrow>
     price_col \<noteq> ''position'' \<and> price_col \<noteq> strategy_col
   \<and> price_col \<noteq> ''cumulative_'' @ strategy_col
   \<and> (\<forall>window \<in> set ws. 1 \<le> window
         \<and> price_col \<noteq> ''SMA_'' @ str_int window
         \<and> price_col \<noteq> ''EMA_'' @ str_int window)"

text \<open>
  The part of \<open>trend_following\<close> that follows the reset of \<open>position\<close> and the
  copy of the frame.
\<close>

definition trend_following_body :: "nat \<Rightarrow> string \<Rightarrow> string \<Rightarrow> int \<Rightarrow> nat py" where
  "trend_following_body df price_col strategy_col window =
     (let SMA_col = ''SMA_'' @ str_int window;
          EMA_col = ''EMA_'' @ str_int window
      in
      bind (getitem df price_col) (\<lambda>p1.
      bind (lift (rolling_mean window p1)) (\<lambda>sma.
      bind (setitem df SMA_col sma) (\<lambda>_.
      bind (getitem df price_col) (\<lambda>p2.
      bind (lift (ewm_mean window p2)) (\<lambda>ema.
      bind (setitem df EMA_col ema) (\<lambda>_.
      bind (apply_rows df (\<lambda>row. update_position row price_col SMA_col EMA_col)) (\<lambda>sig.
      bind (setitem df ''position'' (shift1_int sig)) (\<lambda>_.
      bind (getitem df price_col) (\<lambda>p3.
      bind (getitem df ''position'') (\<lambda>pos.
      bind (setitem df strategy_col (map2 fmul (pct_change p3) pos)) (\<lambda>_.
      ret df))))))))))))"

text \<open>
  \<open>same_run R r r' m m'\<close>: started in two states that agree on \<open>position\<close> and on
  the frames at \<open>r\<close> and \<open>r'\<close>, the computations \<open>m\<close> and \<open>m'\<close> end with the same
  error or with values related by \<open>R\<close>, with equal positions and equal frames at \<open>r\<close>
  and \<open>r'\<close>, and leave every other frame and the next reference as they were.
\<close>

definition same_run :: "('a \<Rightarrow> 'b \<Rightarrow> bool) \<Rightarrow> nat \<Rightarrow> nat \<Rightarrow> 'a py \<Rightarrow> 'b py \<Rightarrow> bool" where
  "same_run R r r' m m' \<longleftrightarrow>
     (\<forall>w v. position w = position v \<and> frames w r = frames v r' \<longrightarrow>
        rel_sum (=) R (fst (m w)) (fst (m' v))
      \<and> position (snd (m w)) = position (snd (m' v))
      \<and> frames (snd (m w)) r = frames (snd (m' v)) r'
      \<and> next_ref (snd (m w)) = next_ref w \<and> next_ref (snd (m' v)) = next_ref v
      \<and> (\<forall>q. q \<noteq> r \<longrightarrow> frames (snd (m w)) q = frames w q)
      \<and> (\<forall>q. q \<noteq> r' \<longrightarrow> frames (snd (m' v)) q = frames v q))"

text \<open>
  Example inputs: a frame with a column \<open>price\<close>, alone in the interpreter; a frame
  with the columns \<open>price\<close> and \<open>ret\<close>; and the price frame at another reference, in
  an interpreter with another frame and a position left at 1.
\<close>

definition empty_frame :: frame where
  "empty_frame = \<lparr>nrows = 0, cols = (\<lambda>_. None)\<rparr>"

definition price_frame :: "fl list \<Rightarrow> frame" where
  "price_frame ps = \<lparr>nrows = length ps, cols = (\<lambda>_. None)(''price'' \<mapsto> ps)\<rparr>"

definition price_world :: "fl list \<Rightarrow> world" where
  "price_world ps =
     \<lparr>position = 0, next_ref = 1, frames = (\<lambda>_. empty_frame)(0 := price_frame ps)\<rparr>"


definition busy_world :: "fl list \<Rightarrow> world" where
  "busy_world ps =
     \<lparr>position = 1, next_ref = 3,
      frames = (\<lambda>_. empty_frame)(1 := price_frame [Fin 7], 2 := price_frame ps)\<rparr>"

section \<open>The program computes these series\<close>

lemma bind_ret [simp]: "bind (ret x) f w = f x w"
  by (simp add: bind_def ret_def)

lemma bind_raise [simp]: "bind (raise e) f w = (Inl e, w)"
  by (simp add: bind_def raise_def)

lemma bind_Inr: "m w = (Inr x, w') \<Longrightarrow> bind m f w = f x w'"
  by (simp add: bind_def)

lemma bind_Inl: "m w = (Inl e, w') \<Longrightarrow> bind m f w = (Inl e, w')"
  by (simp add: bind_def)

lemma length_rolling_values [simp]: "length (rolling_values window xs) = length xs"
  by (simp add: rolling_values_def)

lemma length_ewm_loop [simp]: "length (ewm_loop f wt ow xs) = length xs"
  by (induction xs arbitrary: wt ow) (auto simp: Let_def)

lemma length_ewm_values [simp]: "length (ewm_values window xs) = length xs"
  by (cases xs) (auto simp: ewm_values_def inf_to_nan_def Let_def)

lemma length_scan_position [simp]: "length (scan_position p rows) = length rows"
  by (induction rows arbitrary: p) auto

lemma length_raw_signals [simp]: "length (raw_signals window prices) = length prices"
  by (simp add: raw_signals_def)

lemma update_position_row:
  assumes "row price_col = Some c" "row SMA_col = Some s" "row EMA_col = Some e"
  shows "update_position row price_col SMA_col EMA_col w =
           (Inr (next_position (position w) c s e),
            w\<lparr>position := next_position (position w) c s e\<rparr>)"
  using assms
  by (simp add: update_position_def row_get_def get_position_def set_position_def
      next_position_def bind_def ret_def)

lemma mapM_update_position:
  assumes "\<forall>i \<in> set idx. row_at f i pc = Some (P ! i) \<and> row_at f i sc = Some (S ! i)
             \<and> row_at f i ec = Some (E ! i)"
  shows "mapM (\<lambda>row. update_position row pc sc ec) (map (row_at f) idx) w =
           (Inr (scan_position (position w) (map (\<lambda>i. (P ! i, S ! i, E ! i)) idx)),
            w\<lparr>position := last (position w # scan_position (position w)
                               (map (\<lambda>i. (P ! i, S ! i, E ! i)) idx))\<rparr>)"
  using assms
proof (induction idx arbitrary: w)
  case Nil
  then show ?case by (simp add: ret_def)
next
  case (Cons i idx)
  have step: "update_position (row_at f i) pc sc ec w =
           (Inr (next_position (position w) (P ! i) (S ! i) (E ! i)),
            w\<lparr>position := next_position (position w) (P ! i) (S ! i) (E ! i)\<rparr>)"
    using Cons.prems by (intro update_position_row) auto
  have rest: "\<forall>i \<in> set idx. row_at f i pc = Some (P ! i) \<and> row_at f i sc = Some (S ! i)
             \<and> row_at f i ec = Some (E ! i)"
    using Cons.prems by simp
  show ?case
    by (simp add: bind_def step Cons.IH [OF rest] ret_def)
qed

lemma zip3_nth:
  assumes "length S = length P" "length E = length P"
  shows "map (\<lambda>i. (P ! i, S ! i, E ! i)) [0..<length P] = zip P (zip S E)"
  using assms by (intro nth_equalityI) auto

lemma apply_rows_update_position:
  assumes "cols (frames w df) pc = Some P" "cols (frames w df) sc = Some S"
    "cols (frames w df) ec = Some E"
    "nrows (frames w df) = length P" "length S = length P" "length E = length P"
  shows "apply_rows df (\<lambda>row. update_position row pc sc ec) w =
           (Inr (scan_position (position w) (zip P (zip S E))),
            w\<lparr>position := last (position w # scan_position (position w) (zip P (zip S E)))\<rparr>)"
proof -
  have rows: "\<forall>i \<in> set [0..<length P]. row_at (frames w df) i pc = Some (P ! i)
      \<and> row_at (frames w df) i sc = Some (S ! i) \<and> row_at (frames w df) i ec = Some (E ! i)"
    using assms by (simp add: row_at_def)
  show ?thesis
    unfolding apply_rows_def assms(4)
    by (simp only: mapM_update_position [OF rows] zip3_nth [OF assms(5) assms(6)])
qed

lemma getitem_run: "cols (frames w df) c = Some v \<Longrightarrow> getitem df c w = (Inr v, w)"
  by (simp add: getitem_def)

lemma trend_following_run:
  assumes P: "cols (frames w df0) price_col = Some prices"
    and n: "nrows (frames w df0) = length prices"
    and win: "1 \<le> window"
    and c1: "price_col \<noteq> ''SMA_'' @ str_int window"
    and c2: "price_col \<noteq> ''EMA_'' @ str_int window"
    and c3: "price_col \<noteq> ''position''"
  shows "trend_following df0 price_col strategy_col window w =
           (Inr (next_ref w),
            w\<lparr>position := last (0 # raw_signals window prices),
              next_ref := Suc (next_ref w),
              frames := (frames w)
                (next_ref w := trend_frame (frames w df0) strategy_col window prices)\<rparr>)"
proof -
  define S where "S = ''SMA_'' @ str_int window"
  define E where "E = ''EMA_'' @ str_int window"
  define f2 where "f2 = (frames w df0)\<lparr>cols := (cols (frames w df0))
       (S \<mapsto> rolling_values window prices, E \<mapsto> ewm_values window prices)\<rparr>"
  define w2 where "w2 = w\<lparr>position := 0, next_ref := Suc (next_ref w),
       frames := (frames w)(next_ref w := f2)\<rparr>"
  have SE: "S \<noteq> E" by (simp add: S_def E_def)
  have pS: "price_col \<noteq> S" and pE: "price_col \<noteq> E"
    using c1 c2 by (simp_all add: S_def E_def)
  have "apply_rows (next_ref w) (\<lambda>row. update_position row price_col S E) w2 =
           (Inr (scan_position (position w2)
                  (zip prices (zip (rolling_values window prices) (ewm_values window prices)))),
            w2\<lparr>position := last (position w2 # scan_position (position w2)
                  (zip prices (zip (rolling_values window prices) (ewm_values window prices))))\<rparr>)"
    using P n pS pE SE
    by (intro apply_rows_update_position) (simp_all add: w2_def f2_def)
  then have a: "apply_rows (next_ref w) (\<lambda>row. update_position row price_col S E) w2 =
      (Inr (raw_signals window prices),
       w2\<lparr>position := last (0 # raw_signals window prices)\<rparr>)"
    by (simp add: raw_signals_def w2_def)
  have start: "bind (set_position 0) (\<lambda>_. bind (copy df0) (\<lambda>df. k df)) w =
      k (next_ref w) (w\<lparr>position := 0, next_ref := Suc (next_ref w),
            frames := (frames w)(next_ref w := frames w df0)\<rparr>)" for k :: "nat \<Rightarrow> nat py"
    by (simp add: bind_def set_position_def copy_def)
  show ?thesis
    unfolding trend_following_def Let_def S_def [symmetric] E_def [symmetric] start
    using P win pS pE c3 SE
    apply (simp add: bind_def getitem_def setitem_def lift_def rolling_mean_def ewm_mean_def
        a [unfolded w2_def f2_def])
    apply (simp add: ret_def trend_frame_def strategy_series_def S_def E_def)
    done
qed

lemma prefix_neq_self: "a \<noteq> [] \<Longrightarrow> a @ b \<noteq> b"
  by (metis append_self_conv2)

lemma length_cumprod_from [simp]: "length (cumprod_from a xs) = length xs"
  by (induction xs arbitrary: a) auto

lemma length_cummax_from [simp]: "length (cummax_from a xs) = length xs"
  by (induction xs arbitrary: a) auto

lemma length_cumulative [simp]: "length (cumulative s) = length s"
  by (simp add: cumulative_def cumprod_def)

lemma length_drawdown_series [simp]: "length (drawdown_series s) = length s"
  by (simp add: drawdown_series_def cummax_def)

lemma max_drawdown_run:
  assumes "cols (frames w df) strategy_col = Some s"
  shows "max_drawdown df strategy_col w =
           (Inr (smax (drawdown_series s)),
            w\<lparr>frames := (frames w)(df := drawdown_frame (frames w df) strategy_col s)\<rparr>)"
proof -
  define C where "C = ''cumulative_return_'' @ strategy_col"
  have CD: "C \<noteq> ''drawdown''" by (simp add: C_def)
  show ?thesis
    unfolding max_drawdown_def Let_def C_def [symmetric]
    using assms CD
    apply (simp add: bind_def getitem_def setitem_def ret_def)
    apply (simp add: drawdown_frame_def drawdown_series_def cumulative_def C_def)
    done
qed

lemma return_metrics_run:
  assumes s: "cols (frames w df) strategy_col = Some s"
    and P: "cols (frames w df) price_col = Some prices"
    and ne: "s \<noteq> []"
    and h: "periods_per_year frequency = Some h"
    and c: "price_col \<noteq> ''cumulative_'' @ strategy_col"
  shows "return_metrics df price_col strategy_col frequency w =
           (Inr (last (cumulative s),
                 annualized_return_of s (nrows (frames w df)) h,
                 annualized_vol_of prices h,
                 sharpe_of s prices (nrows (frames w df)) h,
                 smax (drawdown_series s)),
            w\<lparr>frames := (frames w)(df := metrics_frame (frames w df) strategy_col s)\<rparr>)"
proof -
  define C where "C = ''cumulative_'' @ strategy_col"
  define f1 where "f1 = (frames w df)\<lparr>cols := (cols (frames w df))(C \<mapsto> cumulative s)\<rparr>"
  define w1 where "w1 = w\<lparr>frames := (frames w)(df := f1)\<rparr>"
  have Cs: "C \<noteq> strategy_col" unfolding C_def by (rule prefix_neq_self) simp
  have pC: "price_col \<noteq> C" using c by (simp add: C_def)
  have ne': "cumulative s \<noteq> []" using ne by (metis length_cumulative length_0_conv)
  have "cols (frames w1 df) strategy_col = Some s"
    using s Cs by (simp add: w1_def f1_def)
  from max_drawdown_run [OF this]
  have md: "max_drawdown df strategy_col w1 =
     (Inr (smax (drawdown_series s)),
      w1\<lparr>frames := (frames w1)(df := drawdown_frame (frames w1 df) strategy_col s)\<rparr>)" .
  show ?thesis
    unfolding return_metrics_def Let_def C_def [symmetric]
    using s P ne' h pC Cs
    apply (simp add: bind_def getitem_def setitem_def len_def lift_def iloc_last_def ret_def
        md [unfolded w1_def f1_def] cumulative_def [symmetric])
    apply (simp add: metrics_frame_def annualized_return_of_def annualized_vol_of_def
        sharpe_of_def C_def)
    done
qed

lemma fmul_NaN_right [simp]: "fmul x NaN = NaN"
  by (cases x) auto

lemma fadd_NaN_right [simp]: "fadd x NaN = NaN"
  by (cases x) auto

lemma fdiv_NaN_right [simp]: "fdiv x NaN = NaN"
  by (cases x) auto

lemma length_ffill_from [simp]: "length (ffill_from p xs) = length xs"
  by (induction xs arbitrary: p) auto

lemma length_shift1 [simp]: "length (shift1 xs) = length xs"
  by (cases xs rule: rev_cases) (auto simp: shift1_def)

lemma length_shift1_int [simp]: "length (shift1_int xs) = length xs"
  by (simp add: shift1_int_def)

lemma length_pct_change [simp]: "length (pct_change xs) = length xs"
  by (simp add: pct_change_def ffill_def Let_def)

lemma length_strategy_series [simp]: "length (strategy_series window prices) = length prices"
  by (simp add: strategy_series_def)

lemma shift1_nth:
  "t < length xs \<Longrightarrow> shift1 xs ! t = (if t = 0 then NaN else xs ! (t - 1))"
  by (cases t) (auto simp: shift1_def nth_butlast)

lemma shift1_int_nth:
  "t < length xs \<Longrightarrow>
     shift1_int xs ! t = (if t = 0 then NaN else Fin (real_of_int (xs ! (t - 1))))"
  by (simp add: shift1_int_def shift1_nth)




lemma strategy_series_nth:
  assumes "t < length prices"
  shows "strategy_series window prices ! t =
      (if t = 0 then NaN
       else fmul (pct_change prices ! t)
              (Fin (real_of_int (raw_signals window prices ! (t - 1)))))"
  using assms by (simp add: strategy_series_def shift1_int_nth)

section \<open>The one-period lag of the position\<close>



lemma fgt_NaN_right [simp]: "fgt x NaN = False"
  by (cases x) auto

lemma fle_NaN_right [simp]: "fle x NaN = False"
  by (cases x) auto






section \<open>The position state machine\<close>





lemma inf_to_nan_Nil [simp]: "inf_to_nan [] = []"
  by (simp add: inf_to_nan_def)

lemma inf_to_nan_Cons [simp]:
  "inf_to_nan (x # xs) = (if isfinite x then x else NaN) # inf_to_nan xs"
  by (simp add: inf_to_nan_def)

lemma ffill_from_Fin [simp]: "ffill_from p (map Fin ps) = map Fin ps"
  by (induction ps arbitrary: p) auto

lemma ffill_Fin [simp]: "ffill (map Fin ps) = map Fin ps"
  by (simp add: ffill_def)





lemma fgt_irrefl [simp]: "\<not> fgt x x"
  by (cases x) auto



lemma pct_change_Fin_nth:
  assumes "t < length ps"
  shows "pct_change (map Fin ps) ! t =
     (if t = 0 then NaN else fsub (fdiv (Fin (ps ! t)) (Fin (ps ! (t - 1)))) (Fin 1))"
  using assms by (simp add: pct_change_def Let_def shift1_nth fsub_def)


section \<open>Increasing prices with window 1\<close>







lemma fmax_Fin [simp]: "fmax (Fin a) (Fin b) = Fin (max a b)"
  by (simp add: fmax_def max_def)













lemma dropna_Nil [simp]: "dropna [] = []"
  by (simp add: dropna_def)

lemma dropna_Cons [simp]:
  "dropna (x # xs) = (if isnan x then dropna xs else x # dropna xs)"
  by (simp add: dropna_def)

lemma dropna_Fin [simp]: "dropna (map Fin ds) = map Fin ds"
  by (induction ds) simp_all


lemma smax_Nil [simp]: "smax [] = NaN"
  by (simp add: smax_def)


section \<open>The drawdown curve\<close>




lemma fsum_Fin [simp]: "fsum (map Fin xs) = Fin (sum_list xs)"
  by (induction xs) (simp_all add: fsum_def)

lemma std_Fin:
  assumes "2 \<le> length ps"
  shows "std (map Fin ps) =
     Fin (sqrt ((\<Sum>p\<leftarrow>ps. (sum_list ps / real (length ps) - p)\<^sup>2) / real (length ps - 1)))"
proof -
  let ?n = "length ps" and ?avg = "sum_list ps / real (length ps)"
  have n: "real ?n \<noteq> 0" "real (?n - 1) \<noteq> 0" "\<not> ?n \<le> 1" using assms by auto
  have sq: "map (\<lambda>v. fmul (fsub (Fin ?avg) v) (fsub (Fin ?avg) v)) (map Fin ps) =
      map Fin (map (\<lambda>p. (?avg - p)\<^sup>2) ps)"
    by (simp add: fsub_def power2_eq_square)
  have nonneg: "0 \<le> (\<Sum>p\<leftarrow>ps. (?avg - p)\<^sup>2) / real (?n - 1)"
    by (intro divide_nonneg_nonneg sum_list_nonneg) auto
  show ?thesis
    using n nonneg by (simp add: std_def Let_def sq del: map_map)
qed

lemma annualized_return_of_Fin:
  assumes "last (cumulative s) = Fin c" "- 1 < c" "0 < T" "0 < h"
  shows "annualized_return_of s T h = Fin ((1 + c) powr (1 / (real T / h)) - 1)"
proof -
  have r: "(100 + 100 * c) / 100 = 1 + c" by (simp add: field_simps)
  show ?thesis
    using assms by (simp add: annualized_return_of_def fsub_def r)
qed

section \<open>The metrics of a strategy\<close>




lemma std_few: "length (dropna prices) < 2 \<Longrightarrow> std prices = NaN"
  by (simp add: std_def Let_def)

lemma fdiv_zero:
  "fdiv x (Fin 0) =
     (case x of NaN \<Rightarrow> NaN | NInf \<Rightarrow> NInf | Fin c \<Rightarrow> signed_inf c | PInf \<Rightarrow> PInf)"
  by (cases x) simp_all

section \<open>Degenerate inputs of the metrics\<close>





section \<open>The loop of the grid search\<close>

lemma candidate_run:
  assumes P: "cols (frames w data) price_col = Some prices"
    and n: "nrows (frames w data) = length prices"
    and ne: "prices \<noteq> []"
    and names: "names_apart price_col strategy_col [window]"
  shows "bind (trend_following data price_col strategy_col window)
           (\<lambda>df. return_metrics df price_col strategy_col ''daily'') w =
         (Inr (last (cumulative (strategy_series window prices)),
               annualized_return_of (strategy_series window prices) (length prices) 365,
               annualized_vol_of prices 365,
               sharpe_of (strategy_series window prices) prices (length prices) 365,
               smax (drawdown_series (strategy_series window prices))),
          candidate_world w data strategy_col window prices)"
proof -
  let ?s = "strategy_series window prices"
  let ?f = "trend_frame (frames w data) strategy_col window prices"
  define w1 where "w1 = w\<lparr>position := last (0 # raw_signals window prices),
      next_ref := Suc (next_ref w), frames := (frames w)(next_ref w := ?f)\<rparr>"
  from names have c: "price_col \<noteq> ''position''" "price_col \<noteq> strategy_col"
    "price_col \<noteq> ''cumulative_'' @ strategy_col" "1 \<le> window"
    "price_col \<noteq> ''SMA_'' @ str_int window" "price_col \<noteq> ''EMA_'' @ str_int window"
    by (simp_all add: names_apart_def)
  have tf: "trend_following data price_col strategy_col window w = (Inr (next_ref w), w1)"
    unfolding w1_def by (rule trend_following_run [OF P n c(4) c(5) c(6) c(1)])
  have s: "cols (frames w1 (next_ref w)) strategy_col = Some ?s"
    by (simp add: w1_def trend_frame_def)
  have p: "cols (frames w1 (next_ref w)) price_col = Some prices"
    using P c by (simp add: w1_def trend_frame_def)
  have sne: "?s \<noteq> []" using ne by (metis length_strategy_series length_0_conv)
  have h: "periods_per_year ''daily'' = Some 365" by (simp add: periods_per_year_def)
  have nr: "nrows (frames w1 (next_ref w)) = length prices"
    using n by (simp add: w1_def trend_frame_def)
  have rm: "return_metrics (next_ref w) price_col strategy_col ''daily'' w1 =
      (Inr (last (cumulative ?s), annualized_return_of ?s (length prices) 365,
            annualized_vol_of prices 365, sharpe_of ?s prices (length prices) 365,
            smax (drawdown_series ?s)),
       w1\<lparr>frames := (frames w1)(next_ref w := metrics_frame (frames w1 (next_ref w)) strategy_col ?s)\<rparr>)"
    using return_metrics_run [OF s p sne h c(3)] by (simp only: nr)
  have w2: "w1\<lparr>frames := (frames w1)(next_ref w := metrics_frame (frames w1 (next_ref w)) strategy_col ?s)\<rparr>
      = candidate_world w data strategy_col window prices"
    by (simp add: w1_def candidate_world_def)
  show ?thesis
    by (simp only: bind_def tf rm w2 prod.case sum.case)
qed

lemma grid_search_step_run:
  assumes P: "cols (frames w data) price_col = Some prices"
    and n: "nrows (frames w data) = length prices"
    and ne: "prices \<noteq> []"
    and names: "names_apart price_col strategy_col [window]"
  shows "grid_search_step data price_col strategy_col st window w =
         (Inr (record_candidate st window (objective_of window prices)),
          candidate_world w data strategy_col window prices)"
proof -
  have tf: "trend_following data price_col strategy_col window w =
      (Inr (next_ref w), w\<lparr>position := last (0 # raw_signals window prices),
              next_ref := Suc (next_ref w),
              frames := (frames w)
                (next_ref w := trend_frame (frames w data) strategy_col window prices)\<rparr>)"
    using names by (intro trend_following_run [OF P n]) (simp_all add: names_apart_def)
  from candidate_run [OF assms]
  have "return_metrics (next_ref w) price_col strategy_col ''daily''
          (w\<lparr>position := last (0 # raw_signals window prices),
              next_ref := Suc (next_ref w),
              frames := (frames w)
                (next_ref w := trend_frame (frames w data) strategy_col window prices)\<rparr>) =
         (Inr (last (cumulative (strategy_series window prices)),
               annualized_return_of (strategy_series window prices) (length prices) 365,
               annualized_vol_of prices 365,
               sharpe_of (strategy_series window prices) prices (length prices) 365,
               smax (drawdown_series (strategy_series window prices))),
          candidate_world w data strategy_col window prices)"
    by (simp only: bind_def tf prod.case sum.case)
  then show ?thesis
    unfolding grid_search_step_def
    by (simp add: bind_def tf record_candidate_def objective_of_def Let_def ret_def)
qed

lemma names_apart_Cons:
  "names_apart pc sc (window # ws) \<longleftrightarrow> names_apart pc sc [window] \<and> names_apart pc sc ws"
  by (auto simp: names_apart_def)

lemma grid_search_loop_run:
  assumes "cols (frames w data) price_col = Some prices"
    and "nrows (frames w data) = length prices"
    and "prices \<noteq> []"
    and "names_apart price_col strategy_col ws"
    and "data < next_ref w"
  shows "\<exists>w'. grid_search_loop data price_col strategy_col st ws w =
              (Inr (search_over prices st ws), w')
            \<and> frames w' data = frames w data
            \<and> next_ref w' = next_ref w + length ws
            \<and> (\<forall>r < next_ref w. frames w' r = frames w r)"
  using assms
proof (induction ws arbitrary: st w)
  case Nil
  then show ?case by (simp add: ret_def search_over_def)
next
  case (Cons window ws)
  let ?w1 = "candidate_world w data strategy_col window prices"
  let ?st1 = "record_candidate st window (objective_of window prices)"
  from Cons.prems(4) have n1: "names_apart price_col strategy_col [window]"
    and n2: "names_apart price_col strategy_col ws"
    by (simp_all add: names_apart_Cons [of _ _ window ws])
  have step: "grid_search_step data price_col strategy_col st window w = (Inr ?st1, ?w1)"
    by (rule grid_search_step_run [OF Cons.prems(1) Cons.prems(2) Cons.prems(3) n1])
  have same: "frames ?w1 data = frames w data"
    using Cons.prems(5) by (simp add: candidate_world_def)
  have olds: "\<forall>r < next_ref w. frames ?w1 r = frames w r"
    by (simp add: candidate_world_def)
  have nx: "next_ref ?w1 = Suc (next_ref w)" by (simp add: candidate_world_def)
  have a: "cols (frames ?w1 data) price_col = Some prices"
    "nrows (frames ?w1 data) = length prices" "data < next_ref ?w1"
    using Cons.prems same nx by simp_all
  from Cons.IH [OF a(1) a(2) Cons.prems(3) n2 a(3), of ?st1]
  obtain w' where r: "grid_search_loop data price_col strategy_col ?st1 ws ?w1 =
              (Inr (search_over prices ?st1 ws), w')"
    and f: "frames w' data = frames ?w1 data"
    and x: "next_ref w' = next_ref ?w1 + length ws"
    and o: "\<forall>r < next_ref ?w1. frames w' r = frames ?w1 r"
    by blast
  have "grid_search_loop data price_col strategy_col st (window # ws) w =
      (Inr (search_over prices st (window # ws)), w')"
    by (simp add: bind_def step r search_over_def)
  moreover have "frames w' data = frames w data" using f same by simp
  moreover have "next_ref w' = next_ref w + length (window # ws)" using x nx by simp
  moreover have "\<forall>r < next_ref w. frames w' r = frames w r"
    using o olds nx by simp
  ultimately show ?case by blast
qed




lemma fgt_NInf_iff: "fgt a NInf \<longleftrightarrow> a \<noteq> NaN \<and> a \<noteq> NInf"
  by (cases a) auto



lemma std_replicate:
  "std (replicate n (Fin p)) = (if n \<le> 1 then NaN else Fin 0)"
proof (cases "n \<le> 1")
  case True
  have "dropna (replicate n (Fin p)) = replicate n (Fin p)"
    using dropna_Fin [of "replicate n p"] by simp
  then have "length (dropna (replicate n (Fin p))) < 2" using True by simp
  from std_few [OF this] True show ?thesis by simp
next
  case False
  then have n: "2 \<le> length (replicate n p)" "real n \<noteq> 0" by simp_all
  have r: "replicate n (Fin p) = map Fin (replicate n p)" by simp
  have avg: "sum_list (replicate n p) / real (length (replicate n p)) = p"
    using n(2) by (simp add: sum_list_replicate)
  have z: "(\<Sum>q\<leftarrow>replicate n p. (p - q)\<^sup>2) = 0"
    by (simp add: sum_list_replicate map_replicate_const)
  show ?thesis
    unfolding r std_Fin [OF n(1)] avg using False by (simp add: z sum_list_replicate)
qed

lemma cumprod_from_ones:
  "set xs \<subseteq> {NaN, Fin 1} \<Longrightarrow> set (cumprod_from (Fin 1) xs) \<subseteq> {NaN, Fin 1}"
  by (induction xs) auto

lemma cumulative_zeros:
  assumes "set s \<subseteq> {NaN, Fin 0}"
  shows "set (cumulative s) \<subseteq> {NaN, Fin 0}"
proof -
  have "set (map (fadd (Fin 1)) s) \<subseteq> {NaN, Fin 1}" using assms by auto
  from cumprod_from_ones [OF this]
  have "set (cumprod (map (fadd (Fin 1)) s)) \<subseteq> {NaN, Fin 1}" by (simp add: cumprod_def)
  then show ?thesis by (auto simp: cumulative_def fsub_def)
qed

lemma pct_change_replicate_nth:
  assumes "t < n"
  shows "pct_change (replicate n (Fin p)) ! t \<in> {NaN, Fin 0}"
proof -
  have "pct_change (map Fin (replicate n p)) ! t =
     (if t = 0 then NaN
      else fsub (fdiv (Fin (replicate n p ! t)) (Fin (replicate n p ! (t - 1)))) (Fin 1))"
    using assms by (intro pct_change_Fin_nth) simp
  then show ?thesis using assms by (simp add: fsub_def signed_inf_def)
qed

lemma strategy_series_constant:
  "set (strategy_series window (replicate n (Fin p))) \<subseteq> {NaN, Fin 0}"
proof
  fix x assume "x \<in> set (strategy_series window (replicate n (Fin p)))"
  then obtain t where t: "t < n" and x: "x = strategy_series window (replicate n (Fin p)) ! t"
    by (auto simp: in_set_conv_nth)
  have "pct_change (replicate n (Fin p)) ! t \<in> {NaN, Fin 0}"
    by (rule pct_change_replicate_nth [OF t])
  then show "x \<in> {NaN, Fin 0}"
    using t by (auto simp: x strategy_series_nth)
qed

lemma objective_of_constant:
  assumes "0 < n"
  shows "objective_of window (replicate n (Fin p)) = NaN"
proof -
  let ?P = "replicate n (Fin p)"
  let ?s = "strategy_series window ?P"
  have ne: "cumulative ?s \<noteq> []" using assms by (metis length_cumulative length_strategy_series
        length_replicate length_0_conv less_numeral_extra(3))
  have "last (cumulative ?s) \<in> set (cumulative ?s)" using ne by (rule last_in_set)
  with cumulative_zeros [OF strategy_series_constant, of window n p]
  have total: "last (cumulative ?s) = NaN \<or> last (cumulative ?s) = Fin 0" by auto
  have y: "1 / (real n / 365) \<noteq> 0" using assms by simp
  have cagr: "annualized_return_of ?s n 365 = NaN \<or> annualized_return_of ?s n 365 = Fin 0"
    using total y by (auto simp: annualized_return_of_def fsub_def)
  have vol: "annualized_vol_of ?P 365 = NaN \<or> annualized_vol_of ?P 365 = Fin 0"
    by (simp add: annualized_vol_of_def std_replicate)
  have "sharpe_of ?s ?P n 365 = NaN"
    using cagr vol by (auto simp: sharpe_of_def signed_inf_def)
  then show ?thesis by (simp add: objective_of_def Let_def)
qed

lemma record_candidate_NaN:
  "record_candidate st window NaN = st\<lparr>results := results st @ [(window, NaN)]\<rparr>"
  by (simp add: record_candidate_def Let_def)

lemma search_over_constant:
  assumes "0 < n"
  shows "search_over (replicate n (Fin p)) st ws =
     st\<lparr>results := results st @ map (\<lambda>window. (window, NaN)) ws\<rparr>"
proof (induction ws arbitrary: st)
  case Nil
  then show ?case by (simp add: search_over_def)
next
  case (Cons window ws)
  have "search_over (replicate n (Fin p)) st (window # ws) =
      search_over (replicate n (Fin p)) (record_candidate st window NaN) ws"
    by (simp add: search_over_def objective_of_constant [OF assms])
  then show ?case by (simp add: Cons.IH record_candidate_NaN)
qed

section \<open>A constant price series\<close>

text \<open>
  Claim C8. On a constant series of finite prices no window is selected. Every strategy
  return is 0 or NaN, so the CAGR is 0 or NaN, the volatility is 0 (NaN for a single
  row), the Sharpe ratio is NaN and so is the objective of every candidate. A NaN
  objective is never greater than the running maximum, so it is left out of the
  comparison: \<open>grid_search\<close> ends normally and returns None, not the first candidate,
  and the caller's frame is as it was. The price column must not carry a name that the
  functions write (\<open>names_apart\<close>), and the windows are at least 1.
\<close>

theorem constant_prices_no_optimal_window:
  assumes "cols (frames w data) price_col = Some (replicate n (Fin p))"
    and "nrows (frames w data) = n"
    and "0 < n"
    and "names_apart price_col strategy_col ws"
    and "data < next_ref w"
  shows "\<exists>st w'.
      grid_search_locals data price_col strategy_col ws w = (Inr st, w')
    \<and> results st = map (\<lambda>window. (window, NaN)) ws
    \<and> optimal_window st = None
    \<and> grid_search data price_col strategy_col ws w = (Inr None, w')
    \<and> frames w' data = frames w data"
proof -
  have n: "nrows (frames w data) = length (replicate n (Fin p))" using assms(2) by simp
  have ne: "replicate n (Fin p) \<noteq> []" using assms(3) by simp
  from grid_search_loop_run [OF assms(1) n ne assms(4) assms(5), of initial_search]
  obtain w' where run: "grid_search_loop data price_col strategy_col initial_search ws w =
      (Inr (search_over (replicate n (Fin p)) initial_search ws), w')"
    and same: "frames w' data = frames w data"
    by blast
  let ?st = "initial_search\<lparr>results := results initial_search @ map (\<lambda>window. (window, NaN)) ws\<rparr>"
  have loc: "grid_search_locals data price_col strategy_col ws w = (Inr ?st, w')"
    using run by (simp add: grid_search_locals_def initial_search_def [symmetric]
        search_over_constant [OF assms(3)])
  have gs: "grid_search data price_col strategy_col ws w = (Inr None, w')"
    by (simp add: grid_search_def bind_def loc ret_def initial_search_def)
  show ?thesis
    apply (rule exI [of _ ?st])
    apply (rule exI [of _ w'])
    apply (intro conjI)
        apply (rule loc)
       apply (simp add: initial_search_def)
      apply (simp add: initial_search_def)
     apply (rule gs)
    apply (rule same)
    done
qed

theorem constant_prices_no_optimal_window_witness:
  "fst (grid_search 0 ''price'' ''ret'' default_window_range
          (price_world (replicate 500 (Fin 3)))) = Inr None"
proof -
  let ?w = "price_world (replicate 500 (Fin 3))"
  have h: "cols (frames ?w 0) ''price'' = Some (replicate 500 (Fin 3))"
    "nrows (frames ?w 0) = 500" "0 < (500::nat)"
    "names_apart ''price'' ''ret'' default_window_range"
    "0 < next_ref ?w"
    by (simp_all add: price_world_def price_frame_def names_apart_def
        default_window_range_def py_range_def)
  from constant_prices_no_optimal_window [OF h]
  show ?thesis by auto
qed


lemma grid_search_value:
  assumes "cols (frames w data) price_col = Some prices"
    and "nrows (frames w data) = length prices"
    and "prices \<noteq> []"
    and "names_apart price_col strategy_col ws"
    and "data < next_ref w"
  shows "fst (grid_search_locals data price_col strategy_col ws w) =
           Inr (search_over prices initial_search ws)"
    and "fst (grid_search data price_col strategy_col ws w) =
           Inr (optimal_window (search_over prices initial_search ws))"
proof -
  from grid_search_loop_run [OF assms, of initial_search]
  obtain w' where run: "grid_search_loop data price_col strategy_col initial_search ws w =
      (Inr (search_over prices initial_search ws), w')"
    by blast
  then show loc: "fst (grid_search_locals data price_col strategy_col ws w) =
           Inr (search_over prices initial_search ws)"
    by (simp add: grid_search_locals_def initial_search_def)
  show "fst (grid_search data price_col strategy_col ws w) =
           Inr (optimal_window (search_over prices initial_search ws))"
    using run
    by (simp add: grid_search_def grid_search_locals_def initial_search_def [symmetric]
        bind_def ret_def)
qed

lemma strategy_series_example_2:
  "strategy_series 2 [Fin 1, Fin 2, Fin 4] = [NaN, Fin 0, Fin 1]"
proof -
  have sig: "raw_signals 2 [Fin 1, Fin 2, Fin 4] = [0, 1, 1]"
    by (simp add: raw_signals_def rolling_values_def rolling_at_def ewm_values_def
        next_position_def Let_def upt_rec)
  have pct: "pct_change [Fin 1, Fin 2, Fin 4] = [NaN, Fin 1, Fin 1]"
    by (simp add: pct_change_def ffill_def shift1_def fsub_def Let_def)
  show ?thesis
    by (simp add: strategy_series_def sig pct shift1_int_def shift1_def)
qed


lemma std_example: "std [Fin 1, Fin 2, Fin 4] = Fin (sqrt (7 / 3))"
  using std_Fin [of "[1, 2, 4]"] by (simp add: power2_eq_square)

lemma len3: "length [Fin 1, Fin 2, Fin 4] = 3"
  by simp

lemma objective_of_example_2: "objective_of 2 [Fin 1, Fin 2, Fin 4] = PInf"
proof -
  let ?s = "[NaN, Fin 0, Fin 1]"
  have t: "last (cumulative ?s) = Fin 1"
    by (simp add: cumulative_def cumprod_def fsub_def)
  have c: "annualized_return_of ?s 3 365 = Fin (2 powr (365 / 3) - 1)"
    using annualized_return_of_Fin [OF t, of 3 365] by simp
  have m: "smax (drawdown_series ?s) = Fin 0"
    by (simp add: drawdown_series_def cumulative_def cumprod_def cummax_def fsub_def
        fmax_def smax_def)
  have gt: "(1::real) < 2 powr (365 / 3)" by simp
  have "sharpe_of ?s [Fin 1, Fin 2, Fin 4] 3 365 =
      Fin ((2 powr (365 / 3) - 1) / (sqrt (7 / 3) * sqrt 365))"
    by (simp add: sharpe_of_def annualized_vol_of_def std_example c)
  moreover have "0 < (2 powr (365 / 3) - 1) / (sqrt (7 / 3) * sqrt 365)"
    using gt by simp
  ultimately show ?thesis
    unfolding objective_of_def Let_def strategy_series_example_2 len3
    by (simp add: m signed_inf_def)
qed


section \<open>The result of the grid search\<close>




lemma bind_assoc: "bind (bind m f) g = bind m (\<lambda>x. bind (f x) g)"
  by (rule ext) (simp add: bind_def split: prod.splits sum.splits)

lemma grid_search_step_bind:
  "grid_search_step data price_col strategy_col st window_size =
     bind (bind (trend_following data price_col strategy_col window_size)
             (\<lambda>df. return_metrics df price_col strategy_col ''daily''))
       (\<lambda>(_, _, _, sharpe_ratio, max_drawdown).
          ret (record_candidate st window_size (fdiv sharpe_ratio max_drawdown)))"
proof -
  have k: "(\<lambda>(_ :: fl, _ :: fl, _ :: fl, sharpe_ratio, max_drawdown).
          let objective_value = fdiv sharpe_ratio max_drawdown;
              st1 = st\<lparr>results := results st @ [(window_size, objective_value)]\<rparr>
          in if fgt objective_value (max_objective_value st1)
             then ret (st1\<lparr>max_objective_value := objective_value,
                           optimal_window := Some window_size\<rparr>)
             else ret st1) =
        (\<lambda>(_, _, _, sharpe_ratio, max_drawdown).
          ret (record_candidate st window_size (fdiv sharpe_ratio max_drawdown)))"
    by (rule ext) (simp add: record_candidate_def Let_def split: prod.splits)
  show ?thesis
    unfolding grid_search_step_def bind_assoc k ..
qed

section \<open>A candidate without drawdown\<close>

text \<open>
  Claim C6, as amended. When the backtest of a candidate returns a maximum drawdown of 0,
  the loop of \<open>grid_search\<close> does not stop and does not set the candidate aside: it
  records the objective Sharpe / 0, which is plus infinity for a positive Sharpe ratio,
  minus infinity for a negative one and NaN for a Sharpe ratio that is zero or NaN, and
  goes on with the remaining candidates. The candidate becomes the optimal window exactly
  when its Sharpe ratio is positive and the running maximum is not yet plus infinity;
  otherwise the optimal window stays as it was. As stated, with such a candidate never
  returned, the claim fails.
\<close>

theorem zero_drawdown_candidate:
  assumes "bind (trend_following data price_col strategy_col window)
             (\<lambda>df. return_metrics df price_col strategy_col ''daily'') w
           = (Inr (total_performance, cagr, vol, sharpe, Fin 0), w')"
  shows "\<exists>st'.
      grid_search_step data price_col strategy_col st window w = (Inr st', w')
    \<and> grid_search_loop data price_col strategy_col st (window # rest) w
        = grid_search_loop data price_col strategy_col st' rest w'
    \<and> results st' = results st @ [(window, fdiv sharpe (Fin 0))]
    \<and> fdiv sharpe (Fin 0) =
        (case sharpe of NaN \<Rightarrow> NaN | NInf \<Rightarrow> NInf | Fin x \<Rightarrow> signed_inf x | PInf \<Rightarrow> PInf)
    \<and> optimal_window st' =
        (if fgt sharpe (Fin 0) \<and> fgt PInf (max_objective_value st)
         then Some window else optimal_window st)
    \<and> max_objective_value st' =
        (if fgt sharpe (Fin 0) \<and> fgt PInf (max_objective_value st)
         then PInf else max_objective_value st)"
proof -
  let ?st' = "record_candidate st window (fdiv sharpe (Fin 0))"
  define m where "m = bind (trend_following data price_col strategy_col window)
             (\<lambda>df. return_metrics df price_col strategy_col ''daily'')"
  have mw: "m w = (Inr (total_performance, cagr, vol, sharpe, Fin 0), w')"
    unfolding m_def by (rule assms)
  have step: "grid_search_step data price_col strategy_col st window w = (Inr ?st', w')"
    unfolding grid_search_step_bind m_def [symmetric] by (simp add: bind_def mw ret_def)
  have loop: "grid_search_loop data price_col strategy_col st (window # rest) w
        = grid_search_loop data price_col strategy_col ?st' rest w'"
    by (simp add: bind_def step)
  have res: "results ?st' = results st @ [(window, fdiv sharpe (Fin 0))]"
    by (simp add: record_candidate_def Let_def)
  have sel: "fgt (fdiv sharpe (Fin 0)) (max_objective_value st) \<longleftrightarrow>
      fgt sharpe (Fin 0) \<and> fgt PInf (max_objective_value st)"
    by (cases sharpe; cases "max_objective_value st") (auto simp: signed_inf_def)
  have val: "fgt sharpe (Fin 0) \<Longrightarrow> fdiv sharpe (Fin 0) = PInf"
    by (cases sharpe) (auto simp: signed_inf_def)
  have opt: "optimal_window ?st' =
        (if fgt sharpe (Fin 0) \<and> fgt PInf (max_objective_value st)
         then Some window else optimal_window st)"
    using sel by (simp add: record_candidate_def Let_def)
  have mx: "max_objective_value ?st' =
        (if fgt sharpe (Fin 0) \<and> fgt PInf (max_objective_value st)
         then PInf else max_objective_value st)"
    using sel val by (auto simp: record_candidate_def Let_def)
  show ?thesis
    apply (rule exI [of _ ?st'])
    apply (intro conjI)
         apply (rule step)
        apply (rule loop)
       apply (rule res)
      apply (rule fdiv_zero)
     apply (rule opt)
    apply (rule mx)
    done
qed

lemma candidate_example_2:
  "bind (trend_following 0 ''price'' ''ret'' 2)
     (\<lambda>df. return_metrics df ''price'' ''ret'' ''daily'') (price_world [Fin 1, Fin 2, Fin 4])
   = (Inr (Fin 1, Fin (2 powr (365 / 3) - 1), Fin (sqrt (7 / 3) * sqrt 365),
           Fin ((2 powr (365 / 3) - 1) / (sqrt (7 / 3) * sqrt 365)), Fin 0),
      candidate_world (price_world [Fin 1, Fin 2, Fin 4]) 0 ''ret'' 2 [Fin 1, Fin 2, Fin 4])"
proof -
  let ?P = "[Fin 1, Fin 2, Fin 4]"
  let ?s = "[NaN, Fin 0, Fin 1]"
  have h: "cols (frames (price_world ?P) 0) ''price'' = Some ?P"
    "nrows (frames (price_world ?P) 0) = length ?P" "?P \<noteq> []"
    "names_apart ''price'' ''ret'' [2]"
    by (simp_all add: price_world_def price_frame_def names_apart_def)
  have t: "last (cumulative ?s) = Fin 1"
    by (simp add: cumulative_def cumprod_def fsub_def)
  have c: "annualized_return_of ?s 3 365 = Fin (2 powr (365 / 3) - 1)"
    using annualized_return_of_Fin [OF t, of 3 365] by simp
  have v: "annualized_vol_of ?P 365 = Fin (sqrt (7 / 3) * sqrt 365)"
    by (simp add: annualized_vol_of_def std_example)
  have m: "smax (drawdown_series ?s) = Fin 0"
    by (simp add: drawdown_series_def cumulative_def cumprod_def cummax_def fsub_def
        fmax_def smax_def)
  have sh: "sharpe_of ?s ?P 3 365 = Fin ((2 powr (365 / 3) - 1) / (sqrt (7 / 3) * sqrt 365))"
    by (simp add: sharpe_of_def c v)
  show ?thesis
    unfolding candidate_run [OF h] strategy_series_example_2 len3 t c v m sh ..
qed

theorem zero_drawdown_candidate_witness:
  "fst (grid_search_step 0 ''price'' ''ret'' initial_search 2
          (price_world [Fin 1, Fin 2, Fin 4]))
     = Inr \<lparr>optimal_window = Some 2, max_objective_value = PInf, results = [(2, PInf)]\<rparr>"
proof -
  let ?w = "price_world [Fin 1, Fin 2, Fin 4]"
  let ?sh = "Fin ((2 powr (365 / 3) - 1) / (sqrt (7 / 3) * sqrt 365))"
  have gt: "(1::real) < 2 powr (365 / 3)" by simp
  have pos: "fgt ?sh (Fin 0)" using gt by simp
  from zero_drawdown_candidate [OF candidate_example_2, of initial_search "[]"]
  obtain st' where
    step: "grid_search_step 0 ''price'' ''ret'' initial_search 2 ?w =
      (Inr st', candidate_world ?w 0 ''ret'' 2 [Fin 1, Fin 2, Fin 4])"
    and res: "results st' = results initial_search @ [(2, fdiv ?sh (Fin 0))]"
    and opt: "optimal_window st' =
        (if fgt ?sh (Fin 0) \<and> fgt PInf (max_objective_value initial_search)
         then Some 2 else optimal_window initial_search)"
    and mx: "max_objective_value st' =
        (if fgt ?sh (Fin 0) \<and> fgt PInf (max_objective_value initial_search)
         then PInf else max_objective_value initial_search)"
    by blast
  have "st' = \<lparr>optimal_window = Some 2, max_objective_value = PInf, results = [(2, PInf)]\<rparr>"
    using res opt mx pos by (cases st') (simp add: initial_search_def signed_inf_def)
  with step show ?thesis by simp
qed

theorem zero_drawdown_selected_counterexample:
  "fst (bind (trend_following 0 ''price'' ''ret'' 2)
          (\<lambda>df. return_metrics df ''price'' ''ret'' ''daily'')
          (price_world [Fin 1, Fin 2, Fin 4]))
     = Inr (Fin 1, Fin (2 powr (365 / 3) - 1), Fin (sqrt (7 / 3) * sqrt 365),
            Fin ((2 powr (365 / 3) - 1) / (sqrt (7 / 3) * sqrt 365)), Fin 0)
   \<and> fst (grid_search 0 ''price'' ''ret'' [2] (price_world [Fin 1, Fin 2, Fin 4]))
     = Inr (Some 2)"
proof -
  let ?P = "[Fin 1, Fin 2, Fin 4]"
  have h: "cols (frames (price_world ?P) 0) ''price'' = Some ?P"
    "nrows (frames (price_world ?P) 0) = length ?P" "?P \<noteq> []"
    "names_apart ''price'' ''ret'' [2]" "0 < next_ref (price_world ?P)"
    by (simp_all add: price_world_def price_frame_def names_apart_def)
  have "search_over ?P initial_search [2] =
      \<lparr>optimal_window = Some 2, max_objective_value = PInf, results = [(2, PInf)]\<rparr>"
    by (simp add: search_over_def record_candidate_def objective_of_example_2
        initial_search_def Let_def)
  then have "fst (grid_search 0 ''price'' ''ret'' [2] (price_world ?P)) = Inr (Some 2)"
    using grid_search_value(2) [OF h] by simp
  then show ?thesis by (simp add: candidate_example_2)
qed

section \<open>Runs on equal inputs\<close>

text \<open>
  Two computations are compared on two states of the interpreter that agree on the global
  \<open>position\<close> and on one frame each, found at \<open>r\<close> in the first state and at \<open>r'\<close>
  in the second (\<open>same_run\<close>): they end alike, with equal values, equal positions and
  equal frames at \<open>r\<close> and \<open>r'\<close>, and they touch no other frame. Every operation on a
  frame has this property, and \<open>bind\<close> keeps it.
\<close>

lemma same_run_ret: "R x y \<Longrightarrow> same_run R r r' (ret x) (ret y)"
  by (simp add: same_run_def ret_def)

lemma same_run_raise: "same_run R r r' (raise e) (raise e)"
  by (simp add: same_run_def raise_def)

lemma same_run_lift: "same_run (=) r r' (lift x) (lift x)"
  by (cases x) (simp_all add: same_run_def lift_def)

lemma same_run_bind:
  assumes m: "same_run (=) r r' m m'"
    and f: "\<And>x. same_run R r r' (f x) (f' x)"
  shows "same_run R r r' (bind m f) (bind m' f')"
  unfolding same_run_def
proof (intro allI impI)
  fix w v :: world assume pre: "position w = position v \<and> frames w r = frames v r'"
  obtain a w1 where mw: "m w = (a, w1)" by (cases "m w")
  obtain b v1 where mv: "m' v = (b, v1)" by (cases "m' v")
  from m [unfolded same_run_def, rule_format, OF pre]
  have ab: "rel_sum (=) (=) a b" and p1: "position w1 = position v1"
    and f1: "frames w1 r = frames v1 r'"
    and n1: "next_ref w1 = next_ref w" "next_ref v1 = next_ref v"
    and o1: "\<forall>q. q \<noteq> r \<longrightarrow> frames w1 q = frames w q"
      "\<forall>q. q \<noteq> r' \<longrightarrow> frames v1 q = frames v q"
    by (simp_all add: mw mv)
  from ab have eq: "a = b" by (simp add: sum.rel_eq)
  show "rel_sum (=) R (fst (bind m f w)) (fst (bind m' f' v))
      \<and> position (snd (bind m f w)) = position (snd (bind m' f' v))
      \<and> frames (snd (bind m f w)) r = frames (snd (bind m' f' v)) r'
      \<and> next_ref (snd (bind m f w)) = next_ref w \<and> next_ref (snd (bind m' f' v)) = next_ref v
      \<and> (\<forall>q. q \<noteq> r \<longrightarrow> frames (snd (bind m f w)) q = frames w q)
      \<and> (\<forall>q. q \<noteq> r' \<longrightarrow> frames (snd (bind m' f' v)) q = frames v q)"
  proof (cases a)
    case (Inl e)
    then show ?thesis
      using eq p1 f1 n1 o1 by (simp add: bind_def mw mv)
  next
    case (Inr x)
    have pre1: "position w1 = position v1 \<and> frames w1 r = frames v1 r'"
      using p1 f1 by simp
    from f [of x, unfolded same_run_def, rule_format, OF pre1]
    show ?thesis
      using Inr eq n1 o1 by (simp add: bind_def mw mv)
  qed
qed

lemma same_run_getitem: "same_run (=) r r' (getitem r c) (getitem r' c)"
  by (simp add: same_run_def getitem_def sum.rel_eq split: option.splits)

lemma same_run_setitem: "same_run (=) r r' (setitem r c x) (setitem r' c x)"
  by (simp add: same_run_def setitem_def)

lemma same_run_len: "same_run (=) r r' (len r) (len r')"
  by (simp add: same_run_def len_def)

lemma same_run_get_position: "same_run (=) r r' get_position get_position"
  by (simp add: same_run_def get_position_def)

lemma same_run_set_position: "same_run (=) r r' (set_position p) (set_position p)"
  by (simp add: same_run_def set_position_def)

lemma same_run_row_get: "same_run (=) r r' (row_get row c) (row_get row c)"
  by (cases "row c") (simp_all add: row_get_def same_run_raise same_run_ret)

lemma same_run_update_position:
  "same_run (=) r r' (update_position row a b c) (update_position row a b c)"
  unfolding update_position_def
  by (intro same_run_bind same_run_row_get same_run_get_position)
    (simp_all add: same_run_set_position same_run_ret)

lemma same_run_mapM:
  assumes "\<And>x. same_run (=) r r' (f x) (f x)"
  shows "same_run (=) r r' (mapM f xs) (mapM f xs)"
proof (induction xs)
  case Nil
  show ?case by (simp add: same_run_ret)
next
  case (Cons x xs)
  show ?case
    by (simp del: bind_ret) (intro same_run_bind assms Cons.IH same_run_ret refl)
qed

lemma same_run_apply_rows:
  assumes "\<And>row. same_run (=) r r' (f row) (f row)"
  shows "same_run (=) r r' (apply_rows r f) (apply_rows r' f)"
  unfolding same_run_def
proof (intro allI impI)
  fix w v :: world assume pre: "position w = position v \<and> frames w r = frames v r'"
  let ?rows = "map (row_at (frames w r)) [0..<nrows (frames w r)]"
  have a: "apply_rows r f w = mapM f ?rows w" by (simp add: apply_rows_def)
  have b: "apply_rows r' f v = mapM f ?rows v" using pre by (simp add: apply_rows_def)
  from same_run_mapM [OF assms, where xs = ?rows, unfolded same_run_def, rule_format, OF pre]
  show "rel_sum (=) (=) (fst (apply_rows r f w)) (fst (apply_rows r' f v))
      \<and> position (snd (apply_rows r f w)) = position (snd (apply_rows r' f v))
      \<and> frames (snd (apply_rows r f w)) r = frames (snd (apply_rows r' f v)) r'
      \<and> next_ref (snd (apply_rows r f w)) = next_ref w
      \<and> next_ref (snd (apply_rows r' f v)) = next_ref v
      \<and> (\<forall>q. q \<noteq> r \<longrightarrow> frames (snd (apply_rows r f w)) q = frames w q)
      \<and> (\<forall>q. q \<noteq> r' \<longrightarrow> frames (snd (apply_rows r' f v)) q = frames v q)"
    unfolding a b .
qed

lemma same_run_max_drawdown:
  "same_run (=) r r' (max_drawdown r sc) (max_drawdown r' sc)"
  unfolding max_drawdown_def Let_def
  by (intro same_run_bind same_run_getitem same_run_setitem same_run_ret refl)

lemma same_run_periods:
  "same_run (=) r r'
     (case periods_per_year frequency of None \<Rightarrow> raise UnboundLocalError | Some h \<Rightarrow> ret h)
     (case periods_per_year frequency of None \<Rightarrow> raise UnboundLocalError | Some h \<Rightarrow> ret h)"
  by (cases "periods_per_year frequency") (simp_all add: same_run_raise same_run_ret)

lemma same_run_return_metrics:
  "same_run (=) r r' (return_metrics r pc sc frequency) (return_metrics r' pc sc frequency)"
  unfolding return_metrics_def Let_def
  by (intro same_run_bind same_run_getitem same_run_setitem same_run_len same_run_periods
      same_run_lift same_run_max_drawdown same_run_ret refl)

lemma trend_following_unfold:
  "trend_following df0 price_col strategy_col window =
     bind (set_position 0) (\<lambda>_. bind (copy df0) (\<lambda>df.
       trend_following_body df price_col strategy_col window))"
  by (simp add: trend_following_def trend_following_body_def)

lemma same_run_trend_following_body:
  "same_run (\<lambda>a b. a = r \<and> b = r') r r'
     (trend_following_body r pc sc window) (trend_following_body r' pc sc window)"
  unfolding trend_following_body_def Let_def
  by (intro same_run_bind same_run_getitem same_run_setitem same_run_lift
      same_run_apply_rows same_run_update_position same_run_ret conjI refl)

lemma trend_following_same:
  fixes w v :: world and d d' :: nat and pc sc :: string and window :: int
  assumes fr: "frames v d' = frames w d"
  defines "a \<equiv> trend_following d pc sc window w"
    and "b \<equiv> trend_following d' pc sc window v"
  shows "rel_sum (=) (\<lambda>x y. x = next_ref w \<and> y = next_ref v) (fst a) (fst b)"
    and "position (snd a) = position (snd b)"
    and "frames (snd a) (next_ref w) = frames (snd b) (next_ref v)"
    and "next_ref (snd a) = Suc (next_ref w)" and "next_ref (snd b) = Suc (next_ref v)"
    and "\<forall>q. q \<noteq> next_ref w \<longrightarrow> frames (snd a) q = frames w q"
    and "\<forall>q. q \<noteq> next_ref v \<longrightarrow> frames (snd b) q = frames v q"
proof -
  let ?r = "next_ref w" and ?r' = "next_ref v"
  define w1 where "w1 = w\<lparr>position := 0, next_ref := Suc ?r,
      frames := (frames w)(?r := frames w d)\<rparr>"
  define v1 where "v1 = v\<lparr>position := 0, next_ref := Suc ?r',
      frames := (frames v)(?r' := frames v d')\<rparr>"
  have a: "a = trend_following_body ?r pc sc window w1"
    by (simp add: a_def trend_following_unfold bind_def set_position_def copy_def w1_def)
  have b: "b = trend_following_body ?r' pc sc window v1"
    by (simp add: b_def trend_following_unfold bind_def set_position_def copy_def v1_def)
  have pre: "position w1 = position v1 \<and> frames w1 ?r = frames v1 ?r'"
    using fr by (simp add: w1_def v1_def)
  note loc = same_run_trend_following_body [of ?r ?r' pc sc window,
      unfolded same_run_def, rule_format, OF pre, folded a b]
  from loc show "rel_sum (=) (\<lambda>x y. x = ?r \<and> y = ?r') (fst a) (fst b)" by blast
  from loc show "position (snd a) = position (snd b)" by blast
  from loc show "frames (snd a) ?r = frames (snd b) ?r'" by blast
  from loc show "next_ref (snd a) = Suc ?r" by (simp add: w1_def)
  from loc show "next_ref (snd b) = Suc ?r'" by (simp add: v1_def)
  from loc have "\<forall>q. q \<noteq> ?r \<longrightarrow> frames (snd a) q = frames w1 q" by blast
  then show "\<forall>q. q \<noteq> ?r \<longrightarrow> frames (snd a) q = frames w q" by (simp add: w1_def)
  from loc have "\<forall>q. q \<noteq> ?r' \<longrightarrow> frames (snd b) q = frames v1 q" by blast
  then show "\<forall>q. q \<noteq> ?r' \<longrightarrow> frames (snd b) q = frames v q" by (simp add: v1_def)
qed

lemma bind_fst_Inl: "fst (m w) = Inl e \<Longrightarrow> bind m f w = (Inl e, snd (m w))"
  by (cases "m w") (simp add: bind_def)

lemma bind_fst_Inr: "fst (m w) = Inr x \<Longrightarrow> bind m f w = f x (snd (m w))"
  by (cases "m w") (simp add: bind_def)

lemma same_run_record:
  "same_run (=) r r'
     (case x of (_ :: fl, _ :: fl, _ :: fl, sharpe_ratio, mdd) \<Rightarrow>
        let objective_value = fdiv sharpe_ratio mdd;
            st1 = st\<lparr>results := results st @ [(window_size, objective_value)]\<rparr>
        in if fgt objective_value (max_objective_value st1)
           then ret (st1\<lparr>max_objective_value := objective_value,
                         optimal_window := Some window_size\<rparr>)
           else ret st1)
     (case x of (_ :: fl, _ :: fl, _ :: fl, sharpe_ratio, mdd) \<Rightarrow>
        let objective_value = fdiv sharpe_ratio mdd;
            st1 = st\<lparr>results := results st @ [(window_size, objective_value)]\<rparr>
        in if fgt objective_value (max_objective_value st1)
           then ret (st1\<lparr>max_objective_value := objective_value,
                         optimal_window := Some window_size\<rparr>)
           else ret st1)"
  by (cases x) (simp add: Let_def same_run_ret)

lemma grid_search_step_same:
  fixes w v :: world and d d' :: nat and pc sc :: string and window :: int and st :: search
  assumes fr: "frames v d' = frames w d" and d: "d < next_ref w" and d': "d' < next_ref v"
  defines "a \<equiv> grid_search_step d pc sc st window w"
    and "b \<equiv> grid_search_step d' pc sc st window v"
  shows "fst a = fst b"
    and "frames (snd a) d = frames w d" and "frames (snd b) d' = frames v d'"
    and "next_ref (snd a) = Suc (next_ref w)" and "next_ref (snd b) = Suc (next_ref v)"
    and "\<forall>q < next_ref w. frames (snd a) q = frames w q"
proof -
  let ?r = "next_ref w" and ?r' = "next_ref v"
  let ?tw = "trend_following d pc sc window w" and ?tv = "trend_following d' pc sc window v"
  note tf = trend_following_same [OF fr, of pc sc window]
  let ?k = "\<lambda>df. bind (return_metrics df pc sc ''daily'')
       (\<lambda>x. case x of (_ :: fl, _ :: fl, _ :: fl, sharpe_ratio, mdd) \<Rightarrow>
        let objective_value = fdiv sharpe_ratio mdd;
            st1 = st\<lparr>results := results st @ [(window, objective_value)]\<rparr>
        in if fgt objective_value (max_objective_value st1)
           then ret (st1\<lparr>max_objective_value := objective_value,
                         optimal_window := Some window\<rparr>)
           else ret st1)"
  have a: "a = bind (trend_following d pc sc window) ?k w"
    by (simp add: a_def grid_search_step_def)
  have b: "b = bind (trend_following d' pc sc window) ?k v"
    by (simp add: b_def grid_search_step_def)
  have k: "same_run (=) ?r ?r' (?k ?r) (?k ?r')"
    by (intro same_run_bind same_run_return_metrics same_run_record)
  have dr: "d \<noteq> ?r" "d' \<noteq> ?r'" using d d' by simp_all
  have "fst a = fst b \<and> frames (snd a) d = frames w d \<and> frames (snd b) d' = frames v d'
      \<and> next_ref (snd a) = Suc ?r \<and> next_ref (snd b) = Suc ?r'
      \<and> (\<forall>q < ?r. frames (snd a) q = frames w q)"
  proof (cases "fst ?tw")
    case (Inl e)
    with tf(1) have e': "fst ?tv = Inl e" by (cases "fst ?tv") simp_all
    have "a = (Inl e, snd ?tw)"
      unfolding a by (rule bind_fst_Inl [where m = "trend_following d pc sc window", OF Inl])
    moreover have "b = (Inl e, snd ?tv)"
      unfolding b by (rule bind_fst_Inl [where m = "trend_following d' pc sc window", OF e'])
    ultimately show ?thesis using tf dr d by simp
  next
    case (Inr x)
    with tf(1) obtain y where y: "fst ?tv = Inr y" and xy: "x = ?r" "y = ?r'"
      by (cases "fst ?tv") simp_all
    have a': "a = ?k ?r (snd ?tw)"
      unfolding a xy(1) [symmetric]
      by (rule bind_fst_Inr [where m = "trend_following d pc sc window", OF Inr])
    have b': "b = ?k ?r' (snd ?tv)"
      unfolding b xy(2) [symmetric]
      by (rule bind_fst_Inr [where m = "trend_following d' pc sc window", OF y])
    have pre: "position (snd ?tw) = position (snd ?tv)
        \<and> frames (snd ?tw) ?r = frames (snd ?tv) ?r'"
      using tf(2) tf(3) by simp
    note loc = k [unfolded same_run_def, rule_format, OF pre, folded a' b']
    from loc have e: "fst a = fst b" by (simp add: sum.rel_eq)
    from loc have "frames (snd a) d = frames (snd ?tw) d" using dr by blast
    then have f1: "frames (snd a) d = frames w d" using tf(6) dr by simp
    from loc have "frames (snd b) d' = frames (snd ?tv) d'" using dr by blast
    then have f2: "frames (snd b) d' = frames v d'" using tf(7) dr by simp
    from loc have n1: "next_ref (snd a) = Suc ?r" using tf(4) by simp
    from loc have n2: "next_ref (snd b) = Suc ?r'" using tf(5) by simp
    from loc have "\<forall>q. q \<noteq> ?r \<longrightarrow> frames (snd a) q = frames (snd ?tw) q" by blast
    with tf(6) have o: "\<forall>q < ?r. frames (snd a) q = frames w q" by simp
    from e f1 f2 n1 n2 o show ?thesis by blast
  qed
  then show "fst a = fst b"
    and "frames (snd a) d = frames w d" and "frames (snd b) d' = frames v d'"
    and "next_ref (snd a) = Suc (next_ref w)" and "next_ref (snd b) = Suc (next_ref v)"
    and "\<forall>q < next_ref w. frames (snd a) q = frames w q"
    by blast+
qed

lemma grid_search_loop_same:
  fixes w v :: world
  assumes "frames v d' = frames w d" and "d < next_ref w" and "d' < next_ref v"
  shows "fst (grid_search_loop d pc sc st ws w) = fst (grid_search_loop d' pc sc st ws v)
       \<and> frames (snd (grid_search_loop d pc sc st ws w)) d = frames w d
       \<and> frames (snd (grid_search_loop d' pc sc st ws v)) d' = frames v d'
       \<and> next_ref w \<le> next_ref (snd (grid_search_loop d pc sc st ws w))
       \<and> next_ref v \<le> next_ref (snd (grid_search_loop d' pc sc st ws v))"
  using assms
proof (induction ws arbitrary: st w v)
  case Nil
  then show ?case by (simp add: ret_def)
next
  case (Cons window ws)
  let ?a = "grid_search_step d pc sc st window w"
  let ?b = "grid_search_step d' pc sc st window v"
  note s = grid_search_step_same [OF Cons.prems, of pc sc st window]
  show ?case
  proof (cases "fst ?a")
    case (Inl e)
    with s(1) have b: "fst ?b = Inl e" by simp
    have "grid_search_loop d pc sc st (window # ws) w = (Inl e, snd ?a)"
      by (simp only: grid_search_loop.simps
          bind_fst_Inl [where m = "grid_search_step d pc sc st window", OF Inl])
    moreover have "grid_search_loop d' pc sc st (window # ws) v = (Inl e, snd ?b)"
      by (simp only: grid_search_loop.simps
          bind_fst_Inl [where m = "grid_search_step d' pc sc st window", OF b])
    ultimately show ?thesis using s by simp
  next
    case (Inr st1)
    with s(1) have b: "fst ?b = Inr st1" by simp
    have pre: "frames (snd ?b) d' = frames (snd ?a) d" "d < next_ref (snd ?a)"
      "d' < next_ref (snd ?b)"
      using s Cons.prems by simp_all
    have "grid_search_loop d pc sc st (window # ws) w =
        grid_search_loop d pc sc st1 ws (snd ?a)"
      by (simp only: grid_search_loop.simps
          bind_fst_Inr [where m = "grid_search_step d pc sc st window", OF Inr])
    moreover have "grid_search_loop d' pc sc st (window # ws) v =
        grid_search_loop d' pc sc st1 ws (snd ?b)"
      by (simp only: grid_search_loop.simps
          bind_fst_Inr [where m = "grid_search_step d' pc sc st window", OF b])
    ultimately show ?thesis
      using Cons.IH [OF pre, of st1] s by simp
  qed
qed

lemma grid_search_same:
  fixes w v :: world
  assumes "frames v d' = frames w d" and "d < next_ref w" and "d' < next_ref v"
  shows "fst (grid_search d pc sc ws w) = fst (grid_search d' pc sc ws v)"
    and "frames (snd (grid_search d pc sc ws w)) d = frames w d"
    and "next_ref w \<le> next_ref (snd (grid_search d pc sc ws w))"
proof -
  let ?st0 = "\<lparr>optimal_window = None, max_objective_value = NInf, results = []\<rparr>"
  let ?a = "grid_search_loop d pc sc ?st0 ws w" and ?b = "grid_search_loop d' pc sc ?st0 ws v"
  note l = grid_search_loop_same [OF assms, of pc sc ?st0 ws]
  have a: "grid_search d pc sc ws w =
      (case fst ?a of Inl e \<Rightarrow> Inl e | Inr st \<Rightarrow> Inr (optimal_window st), snd ?a)"
    by (simp add: grid_search_def grid_search_locals_def bind_def ret_def
        split: prod.splits sum.splits)
  have b: "grid_search d' pc sc ws v =
      (case fst ?b of Inl e \<Rightarrow> Inl e | Inr st \<Rightarrow> Inr (optimal_window st), snd ?b)"
    by (simp add: grid_search_def grid_search_locals_def bind_def ret_def
        split: prod.splits sum.splits)
  from l show "fst (grid_search d pc sc ws w) = fst (grid_search d' pc sc ws v)"
    by (simp add: a b)
  from l show "frames (snd (grid_search d pc sc ws w)) d = frames w d" by (simp add: a)
  from l show "next_ref w \<le> next_ref (snd (grid_search d pc sc ws w))" by (simp add: a)
qed

lemma rel_sum_eq_weaken:
  assumes "rel_sum (=) Q a b" and "\<And>x y. Q x y \<Longrightarrow> R x y"
  shows "rel_sum (=) R a b"
  using assms by (cases a; cases b) simp_all

text \<open>
  Claim C9. Take two states of the interpreter, with any value of the global \<open>position\<close>,
  any other frames and any next reference, whose input frames are equal. Then
  \<open>trend_following\<close> ends alike in both: with the same error, or with two output frames
  that are equal in every column, the position and the return series among them, and with
  the same final \<open>position\<close>. So does \<open>grid_search\<close>: it returns the same window or
  fails with the same error. The same holds for a second run in the state the first run
  left behind, where both output frames exist side by side. The input frame of the caller
  is unchanged by \<open>trend_following\<close> and by \<open>grid_search\<close>. Nothing is assumed about
  the column names, the windows or the prices.
\<close>

theorem runs_are_reproducible:
  fixes w v :: world
  assumes "frames v data' = frames w data"
    and "data < next_ref w"
    and "data' < next_ref v"
  shows "rel_sum (=)
           (\<lambda>out out'. frames (snd (trend_following data price_col strategy_col window w)) out
                      = frames (snd (trend_following data' price_col strategy_col window v)) out')
           (fst (trend_following data price_col strategy_col window w))
           (fst (trend_following data' price_col strategy_col window v))
       \<and> position (snd (trend_following data price_col strategy_col window w))
           = position (snd (trend_following data' price_col strategy_col window v))
       \<and> frames (snd (trend_following data price_col strategy_col window w)) data
           = frames w data
       \<and> rel_sum (=)
           (\<lambda>out out2.
              frames (snd (trend_following data price_col strategy_col window
                        (snd (trend_following data price_col strategy_col window w)))) out
            = frames (snd (trend_following data price_col strategy_col window
                        (snd (trend_following data price_col strategy_col window w)))) out2)
           (fst (trend_following data price_col strategy_col window w))
           (fst (trend_following data price_col strategy_col window
                  (snd (trend_following data price_col strategy_col window w))))
       \<and> fst (grid_search data price_col strategy_col ws w)
           = fst (grid_search data' price_col strategy_col ws v)
       \<and> frames (snd (grid_search data price_col strategy_col ws w)) data = frames w data
       \<and> fst (grid_search data price_col strategy_col ws
                (snd (grid_search data price_col strategy_col ws w)))
           = fst (grid_search data price_col strategy_col ws w)"
proof -
  let ?a = "trend_following data price_col strategy_col window w"
  let ?b = "trend_following data' price_col strategy_col window v"
  let ?c = "trend_following data price_col strategy_col window (snd ?a)"
  let ?g = "grid_search data price_col strategy_col ws w"
  note t = trend_following_same [OF assms(1), of price_col strategy_col window]
  have dr: "data \<noteq> next_ref w" using assms(2) by simp
  have one: "rel_sum (=) (\<lambda>out out'. frames (snd ?a) out = frames (snd ?b) out')
      (fst ?a) (fst ?b)"
    using t(1) by (rule rel_sum_eq_weaken) (simp add: t(3))
  have two: "position (snd ?a) = position (snd ?b)" by (rule t(2))
  have three: "frames (snd ?a) data = frames w data" using t(6) dr by simp
  note u = trend_following_same [of "snd ?a" data w data price_col strategy_col window,
      OF three]
  have nx: "next_ref w \<noteq> next_ref (snd ?a)" using t(4) by simp
  have keep: "frames (snd ?c) (next_ref w) = frames (snd ?a) (next_ref w)"
    using u(7) nx by simp
  have four: "rel_sum (=) (\<lambda>out out2. frames (snd ?c) out = frames (snd ?c) out2)
      (fst ?a) (fst ?c)"
    using u(1) by (rule rel_sum_eq_weaken) (simp add: keep u(3))
  note g = grid_search_same [OF assms, of price_col strategy_col ws]
  have five: "fst ?g = fst (grid_search data' price_col strategy_col ws v)" by (rule g(1))
  have six: "frames (snd ?g) data = frames w data" by (rule g(2))
  have d2: "data < next_ref (snd ?g)" using g(3) assms(2) by simp
  have seven: "fst (grid_search data price_col strategy_col ws (snd ?g)) = fst ?g"
    using grid_search_same(1) [OF six assms(2) d2, of price_col strategy_col ws] by simp
  from one two three four five six seven show ?thesis by blast
qed

theorem runs_are_reproducible_witness:
  "fst (grid_search 0 ''price'' ''ret'' [1, 2] (price_world [Fin 1, Fin 2, Fin 4]))
     = fst (grid_search 2 ''price'' ''ret'' [1, 2] (busy_world [Fin 1, Fin 2, Fin 4]))
   \<and> frames (snd (grid_search 0 ''price'' ''ret'' [1, 2] (price_world [Fin 1, Fin 2, Fin 4]))) 0
     = price_frame [Fin 1, Fin 2, Fin 4]
   \<and> position (snd (trend_following 0 ''price'' ''ret'' 2 (price_world [Fin 1, Fin 2, Fin 4])))
     = position (snd (trend_following 2 ''price'' ''ret'' 2 (busy_world [Fin 1, Fin 2, Fin 4])))"
proof -
  let ?P = "[Fin 1, Fin 2, Fin 4]"
  have h: "frames (busy_world ?P) 2 = frames (price_world ?P) 0"
    "0 < next_ref (price_world ?P)" "2 < next_ref (busy_world ?P)"
    by (simp_all add: busy_world_def price_world_def)
  have f: "frames (price_world ?P) 0 = price_frame ?P" by (simp add: price_world_def)
  from runs_are_reproducible [OF h, of "''price''" "''ret''" 2 "[1, 2]"]
  show ?thesis by (simp only: f)
qed

end
